theory Spec2Isabelle
  imports Main "HOL-Library.Monad_Syntax"
begin

section \<open>Values and objects\<close>

text \<open>
  A JavaScript value, as a cell of a result row or a property of an object. Numbers
  are modelled by integers (no function below computes with a cell's number),
  \<open>JRef a\<close> is a reference to the object (a Date, an array, a nested object) at the
  address \<open>a\<close>, and \<open>JBuiltin n\<close> is the built-in object that every plain object
  inherits under the name \<open>n\<close> (the function \<open>Object\<close> for \<open>constructor\<close>).
\<close>

datatype jsvalue =
    JUndefined
  | JNull
  | JBoolean bool
  | JNumber int
  | JString string
  | JRef nat
  | JBuiltin string

text \<open>
  An object with string keys (\<open>Record<string, T>\<close>) is the list of its entries in the
  order of \<open>Object.entries\<close>; the keys of an object are distinct.
\<close>

type_synonym 'v record_obj = "(string \<times> 'v) list"

definition object_keys :: "'v record_obj \<Rightarrow> string list" where
  "object_keys obj = map fst obj"

definition object_values :: "'v record_obj \<Rightarrow> 'v list" where
  "object_values obj = map snd obj"

text \<open>
  \<open>{...obj, [k]: v}\<close>: a copy of the entries in which the key \<open>k\<close> holds \<open>v\<close>; a key
  the object already has keeps its place, a new key comes last.
\<close>

definition object_set :: "'v record_obj \<Rightarrow> string \<Rightarrow> 'v \<Rightarrow> 'v record_obj" where
  "object_set obj k v =
     (if k \<in> set (object_keys obj)
      then map (\<lambda>(k', v'). if k' = k then (k', v) else (k', v')) obj
      else obj @ [(k, v)])"

text \<open>
  The names of the members of \<open>Object.prototype\<close>. A plain object (an object literal,
  a row of a result set) has no property of its own under these names unless it was
  given one, and a read under one of them then finds the inherited member.
\<close>

definition object_prototype_keys :: "string list" where
  "object_prototype_keys =
     [''constructor'', ''__defineGetter__'', ''__defineSetter__'', ''hasOwnProperty'',
      ''__lookupGetter__'', ''__lookupSetter__'', ''isPrototypeOf'',
      ''propertyIsEnumerable'', ''toString'', ''valueOf'', ''__proto__'',
      ''toLocaleString'']"

text \<open>
  What the read \<open>obj[k]\<close> finds on a plain object: the object's own property, else the
  member of \<open>Object.prototype\<close> of that name, else nothing (\<open>undefined\<close>). An inherited
  member is a function or the prototype itself, so it is truthy and never a string.
\<close>

datatype 'v property = Own 'v | Inherited string | Missing

definition object_get :: "'v record_obj \<Rightarrow> string \<Rightarrow> 'v property" where
  "object_get obj k =
     (case map_of obj k of
        Some v \<Rightarrow> Own v
      | None \<Rightarrow> if k \<in> set object_prototype_keys then Inherited k else Missing)"

type_synonym row = "jsvalue record_obj"

text \<open>\<open>row[id]\<close>, as a value.\<close>

definition row_get :: "row \<Rightarrow> string \<Rightarrow> jsvalue" where
  "row_get r k =
     (case object_get r k of
        Own v \<Rightarrow> v
      | Inherited n \<Rightarrow> JBuiltin n
      | Missing \<Rightarrow> JUndefined)"

section \<open>Configuration\<close>

text \<open>
  The part of \<open>LightdashConfig\<close> that the CSV service reads: \<open>siteUrl\<close> and the
  optional \<open>query.csvCellsLimit\<close>.
\<close>

record query_config =
  csvCellsLimit :: "int option"

record lightdashConfig =
  siteUrl :: string
  query :: "query_config option"

text \<open>
  \<open>this.lightdashConfig.query?.csvCellsLimit || 100000\<close>: the default applies when
  \<open>query\<close> or the limit is missing, and also when the limit is \<open>0\<close> (falsy).
\<close>

definition cellsLimit :: "lightdashConfig \<Rightarrow> int" where
  "cellsLimit config =
     (case query config of
        None \<Rightarrow> 100000
      | Some q \<Rightarrow>
          (case csvCellsLimit q of
             None \<Rightarrow> 100000
           | Some n \<Rightarrow> if n = 0 then 100000 else n))"

section \<open>The truncation heuristic\<close>

text \<open>
  \<open>CsvService.couldBeTruncated\<close>: an empty row set is never truncated; otherwise the
  number of columns is the number of keys of the first row.
\<close>

definition couldBeTruncated :: "lightdashConfig \<Rightarrow> row list \<Rightarrow> bool" where
  "couldBeTruncated config rows =
     (case rows of
        [] \<Rightarrow> False
      | r # _ \<Rightarrow>
          (let numberRows = int (length rows);
               numberColumns = int (length (object_keys r))
           in numberRows * numberColumns \<ge> cellsLimit config - numberColumns))"

text \<open>
  The column count of a row set, as the heuristic reads it: the number of keys of the
  first row, and no column when there is no row.
\<close>

definition columnCount :: "row list \<Rightarrow> int" where
  "columnCount rows = (case rows of [] \<Rightarrow> 0 | r # _ \<Rightarrow> int (length (object_keys r)))"

definition row10 :: row where
  "row10 = map (\<lambda>k. ([k], JNumber 1)) ''abcdefghij''"

definition default_config :: lightdashConfig where
  "default_config = \<lparr>siteUrl = ''http://localhost:8080'', query = None\<rparr>"

section \<open>File identifiers\<close>

subsection \<open>Strings\<close>

text \<open>
  A string is the list of its code units; the model covers the code units below 256
  (ASCII and Latin-1), one \<open>char\<close> each. \<open>toLowerCase\<close> maps \<open>A\<close>..\<open>Z\<close> and the
  Latin-1 capitals (192..222 without the multiplication sign 215) to the letter 32
  places up, and leaves every other code unit as it is.
\<close>

definition code_unit :: "char \<Rightarrow> nat" where
  "code_unit c = of_char c"

definition toLowerCase_unit :: "char \<Rightarrow> char" where
  "toLowerCase_unit c =
     (let n = code_unit c
      in if (65 \<le> n \<and> n \<le> 90) \<or> (192 \<le> n \<and> n \<le> 222 \<and> n \<noteq> 215)
         then char_of (n + 32) else c)"

definition toLowerCase :: "string \<Rightarrow> string" where
  "toLowerCase s = map toLowerCase_unit s"

text \<open>
  The character class \<open>[a-z0-9]\<close> under the flag \<open>i\<close>: the ASCII letters of both
  cases and the digits. This is what "alphanumeric" means for a file name.
\<close>

definition alphanumeric :: "char \<Rightarrow> bool" where
  "alphanumeric c =
     (let n = code_unit c
      in (97 \<le> n \<and> n \<le> 122) \<or> (65 \<le> n \<and> n \<le> 90) \<or> (48 \<le> n \<and> n \<le> 57))"

text \<open>\<open>.replace(/[^a-z0-9]/gi, '_')\<close>: every character outside the class becomes \<open>_\<close>.\<close>

definition replace_non_alnum :: "string \<Rightarrow> string" where
  "replace_non_alnum s = map (\<lambda>c. if \<not> alphanumeric c then CHR ''_'' else c) s"

text \<open>
  \<open>.replace(/_{2,}/g, '_')\<close>: scanning from the left, a greedy match takes a whole run
  of two or more underscores and puts one underscore in its place; a character where
  nothing matches is copied.
\<close>

function collapse_underscores :: "string \<Rightarrow> string" where
  "collapse_underscores [] = []"
| "collapse_underscores (c # cs) =
     (if c = CHR ''_'' \<and> (case cs of [] \<Rightarrow> False | d # _ \<Rightarrow> d = CHR ''_'')
      then CHR ''_'' # collapse_underscores (dropWhile (\<lambda>d. d = CHR ''_'') cs)
      else c # collapse_underscores cs)"
  by pat_completeness auto

termination
  by (relation "measure length") (auto simp: le_imp_less_Suc length_dropWhile_le)

definition sanitizeFileName :: "string \<Rightarrow> string" where
  "sanitizeFileName fileName =
     collapse_underscores (replace_non_alnum (toLowerCase fileName))"

text \<open>
  The sanitization as the specification words it: every maximal run of
  non-alphanumeric characters is replaced by a single underscore.
\<close>

function replace_runs :: "string \<Rightarrow> string" where
  "replace_runs [] = []"
| "replace_runs (c # cs) =
     (if alphanumeric c then c # replace_runs cs
      else CHR ''_'' # replace_runs (dropWhile (\<lambda>d. \<not> alphanumeric d) cs))"
  by pat_completeness auto

termination
  by (relation "measure length") (auto simp: le_imp_less_Suc length_dropWhile_le)

subsection \<open>Timestamps\<close>

text \<open>
  A \<open>moment\<close> value is either invalid or a calendar time with millisecond precision:
  \<open>month\<close> counts from 1, \<open>millisecond\<close> is below 1000.
\<close>

record moment_fields =
  year :: int
  month :: nat
  date :: nat
  hour :: nat
  minute :: nat
  second :: nat
  millisecond :: nat

datatype moment = InvalidMoment | Moment moment_fields

text \<open>The decimal digits of a natural number.\<close>

fun digits :: "nat \<Rightarrow> string" where
  "digits n =
     (if n < 10 then [''0123456789'' ! n]
      else digits (n div 10) @ [''0123456789'' ! (n mod 10)])"

declare digits.simps [simp del]

text \<open>
  moment's \<open>zeroFill(number, targetLength)\<close>: the sign of a negative number, then the
  digits of the absolute value, padded with zeros on the left up to the target length.
\<close>

definition zeroFill :: "int \<Rightarrow> nat \<Rightarrow> string" where
  "zeroFill number targetLength =
     (let absNumber = digits (nat \<bar>number\<bar>)
      in (if number \<ge> 0 then [] else ''-'')
         @ replicate (targetLength - length absNumber) CHR ''0'' @ absNumber)"

text \<open>
  The tokens of the three format strings the service uses. \<open>SSSS\<close> prints the
  fractional second on four digits; a moment holds milliseconds, so the token prints
  the millisecond count times ten.
\<close>

datatype format_token =
    Tok_YYYY | Tok_MM | Tok_DD | Tok_HH | Tok_mm | Tok_ss | Tok_SSSS
  | Tok_literal string

fun formatToken :: "moment_fields \<Rightarrow> format_token \<Rightarrow> string" where
  "formatToken t Tok_YYYY = zeroFill (year t) 4"
| "formatToken t Tok_MM = zeroFill (int (month t)) 2"
| "formatToken t Tok_DD = zeroFill (int (date t)) 2"
| "formatToken t Tok_HH = zeroFill (int (hour t)) 2"
| "formatToken t Tok_mm = zeroFill (int (minute t)) 2"
| "formatToken t Tok_ss = zeroFill (int (second t)) 2"
| "formatToken t Tok_SSSS = zeroFill (int (millisecond t * 10)) 4"
| "formatToken t (Tok_literal s) = s"

text \<open>\<open>time.format(...)\<close>: an invalid moment prints as \<open>Invalid date\<close>.\<close>

definition format_moment :: "format_token list \<Rightarrow> moment \<Rightarrow> string" where
  "format_moment toks m =
     (case m of
        InvalidMoment \<Rightarrow> ''Invalid date''
      | Moment t \<Rightarrow> concat (map (formatToken t) toks))"

text \<open>\<open>'YYYY-MM-DD-HH-mm-ss-SSSS'\<close>\<close>

definition fileIdFormat :: "format_token list" where
  "fileIdFormat =
     [Tok_YYYY, Tok_literal ''-'', Tok_MM, Tok_literal ''-'', Tok_DD, Tok_literal ''-'',
      Tok_HH, Tok_literal ''-'', Tok_mm, Tok_literal ''-'', Tok_ss, Tok_literal ''-'',
      Tok_SSSS]"

text \<open>\<open>'YYYY-MM-DD HH:mm:ss'\<close>\<close>

definition timestampFormat :: "format_token list" where
  "timestampFormat =
     [Tok_YYYY, Tok_literal ''-'', Tok_MM, Tok_literal ''-'', Tok_DD, Tok_literal '' '',
      Tok_HH, Tok_literal '':'', Tok_mm, Tok_literal '':'', Tok_ss]"

text \<open>\<open>'YYYY-MM-DD'\<close>\<close>

definition dateFormat :: "format_token list" where
  "dateFormat = [Tok_YYYY, Tok_literal ''-'', Tok_MM, Tok_literal ''-'', Tok_DD]"

subsection \<open>generateFileId\<close>

text \<open>
  \<open>CsvService.generateFileId(fileName, truncated, time)\<close>. The defaults of the last two
  parameters (\<open>false\<close> and the current time) are supplied by the caller.
\<close>

definition generateFileId :: "string \<Rightarrow> bool \<Rightarrow> moment \<Rightarrow> string" where
  "generateFileId fileName truncated time =
     (let timestamp = format_moment fileIdFormat time;
          sanitizedFileName = sanitizeFileName fileName
      in ''csv-'' @ (if truncated then ''incomplete_results-'' else [])
         @ sanitizedFileName @ ''-'' @ timestamp @ ''.csv'')"

text \<open>
  The instant \<open>2024-01-02T03:04:05.0006\<close>, as moment holds it: the fraction \<open>.0006\<close> of
  a second is 0.6 milliseconds, which is cut to 0 milliseconds.
\<close>

definition fixed_timestamp :: moment where
  "fixed_timestamp =
     Moment \<lparr>year = 2024, month = 1, date = 2, hour = 3, minute = 4, second = 5,
             millisecond = 0\<rparr>"

section \<open>The access filter\<close>

subsection \<open>The explore, as a value\<close>

text \<open>
  The fields of \<open>Field\<close>, \<open>CompiledDimension\<close>, \<open>CompiledTable\<close> and \<open>Explore\<close> that
  the functions below read or copy. \<open>field_type\<close> is the field \<open>type\<close>, a value of
  \<open>DimensionType\<close> or \<open>MetricType\<close> (both are enumerations of strings).
\<close>

datatype fieldType = METRIC | DIMENSION

record field =
  fieldType :: fieldType
  field_type :: string
  field_name :: string
  field_label :: string
  field_table :: string
  field_tableLabel :: string

record compiledDimension = field +
  requiredAttributes :: "string record_obj option"

record compiledTable =
  table_name :: string
  table_label :: string
  dimensions :: "compiledDimension record_obj"
  metrics :: "field record_obj"

record explore =
  explore_name :: string
  explore_label :: string
  explore_tags :: "string list"
  baseTable :: string
  tables :: "compiledTable record_obj"

text \<open>
  \<open>UserAttributeValueMap\<close>: the value of each attribute of the user. An attribute may
  hold any value (a string, \<open>null\<close>); a missing attribute reads as \<open>undefined\<close>.
\<close>

type_synonym userAttributeValueMap = "jsvalue record_obj"

definition hasUserAttribute :: "userAttributeValueMap \<Rightarrow> string \<Rightarrow> string \<Rightarrow> bool" where
  "hasUserAttribute userAttributes attributeName v =
     (row_get userAttributes attributeName = JString v)"

definition hasUserAttributes ::
  "string record_obj option \<Rightarrow> userAttributeValueMap \<Rightarrow> bool" where
  "hasUserAttributes required userAttributes =
     (case required of
        None \<Rightarrow> True
      | Some attrs \<Rightarrow>
          list_all (\<lambda>(attributeName, v). hasUserAttribute userAttributes attributeName v)
            attrs)"

definition exploreHasFilteredAttribute :: "explore \<Rightarrow> bool" where
  "exploreHasFilteredAttribute e =
     list_ex (\<lambda>(tn, t). list_ex (\<lambda>(dn, d). requiredAttributes d \<noteq> None) (dimensions t))
       (tables e)"

text \<open>
  \<open>filterDimensionsFromExplore\<close>: both \<open>reduce\<close> calls are left folds over the entries,
  from an empty accumulator (an empty array and an empty object have no entries).
\<close>

definition filterDimensionsFromExplore :: "explore \<Rightarrow> userAttributeValueMap \<Rightarrow> explore" where
  "filterDimensionsFromExplore e userAttributes =
     e\<lparr>tables :=
         foldl (\<lambda>at (tableName, t).
                  object_set at tableName
                    (t\<lparr>dimensions :=
                         foldl (\<lambda>acc (dimensionName, dimension).
                                  if hasUserAttributes (requiredAttributes dimension)
                                       userAttributes
                                  then object_set acc dimensionName dimension
                                  else acc)
                               [] (dimensions t)\<rparr>))
               [] (tables e)\<rparr>"

text \<open>
  The keys of an object are distinct: in a well-formed explore no two tables share a
  name, and within a table no two dimensions do.
\<close>

definition wf_explore :: "explore \<Rightarrow> bool" where
  "wf_explore e =
     (distinct (object_keys (tables e))
      \<and> list_all (\<lambda>(tn, t). distinct (object_keys (dimensions t))) (tables e))"

text \<open>The filter in closed form: what it keeps of a table.\<close>

definition visible :: "userAttributeValueMap \<Rightarrow> compiledDimension \<Rightarrow> bool" where
  "visible userAttributes d = hasUserAttributes (requiredAttributes d) userAttributes"

definition filterTable :: "userAttributeValueMap \<Rightarrow> compiledTable \<Rightarrow> compiledTable" where
  "filterTable userAttributes t =
     t\<lparr>dimensions := filter (\<lambda>(dn, d). visible userAttributes d) (dimensions t)\<rparr>"

text \<open>An explore with one table, two restricted dimensions and a user from sales.\<close>

definition status_dimension :: compiledDimension where
  "status_dimension =
     \<lparr>fieldType = DIMENSION, field_type = ''string'', field_name = ''status'',
      field_label = ''Status'', field_table = ''orders'', field_tableLabel = ''Orders'',
      requiredAttributes = None\<rparr>"

definition email_dimension :: compiledDimension where
  "email_dimension =
     \<lparr>fieldType = DIMENSION, field_type = ''string'', field_name = ''email'',
      field_label = ''Email'', field_table = ''orders'', field_tableLabel = ''Orders'',
      requiredAttributes = Some [(''is_admin'', ''true'')]\<rparr>"

definition region_dimension :: compiledDimension where
  "region_dimension =
     \<lparr>fieldType = DIMENSION, field_type = ''string'', field_name = ''region'',
      field_label = ''Region'', field_table = ''orders'', field_tableLabel = ''Orders'',
      requiredAttributes = Some [(''dept'', ''sales'')]\<rparr>"

definition count_metric :: field where
  "count_metric =
     \<lparr>fieldType = METRIC, field_type = ''count'', field_name = ''count'',
      field_label = ''Count'', field_table = ''orders'', field_tableLabel = ''Orders''\<rparr>"

definition orders_table :: compiledTable where
  "orders_table =
     \<lparr>table_name = ''orders'', table_label = ''Orders'',
      dimensions = [(''status'', status_dimension), (''email'', email_dimension),
                    (''region'', region_dimension)],
      metrics = [(''count'', count_metric)]\<rparr>"

definition orders_explore :: explore where
  "orders_explore =
     \<lparr>explore_name = ''orders'', explore_label = ''Orders'', explore_tags = [],
      baseTable = ''orders'', tables = [(''orders'', orders_table)]\<rparr>"

definition sales_user :: userAttributeValueMap where
  "sales_user = [(''dept'', JString ''sales'')]"

subsection \<open>The explore, as objects in a store\<close>

text \<open>
  To speak of mutation the same function is modelled on a store of objects. A store is
  a list of objects, the address of an object is its index, and an object is the list
  of its properties; a property holds a primitive value or a reference. Evaluating an
  object literal allocates a new object at the end of the store. Reading through a
  value that is not a reference to an object of the store has no result (the types of
  the function exclude it).
\<close>

type_synonym heap = "row list"

text \<open>A new object: its reference and the store that holds it.\<close>

definition alloc :: "heap \<Rightarrow> row \<Rightarrow> jsvalue \<times> heap" where
  "alloc h obj = (JRef (length h), h @ [obj])"

text \<open>The properties of the object a value refers to (\<open>Object.entries\<close>, \<open>{...v}\<close>).\<close>

definition deref :: "heap \<Rightarrow> jsvalue \<Rightarrow> row option" where
  "deref h v = (case v of JRef a \<Rightarrow> if a < length h then Some (h ! a) else None | _ \<Rightarrow> None)"

text \<open>\<open>v[k]\<close>\<close>

definition get_prop :: "heap \<Rightarrow> jsvalue \<Rightarrow> string \<Rightarrow> jsvalue option" where
  "get_prop h v k = do { props \<leftarrow> deref h v; Some (row_get props k) }"

definition hasUserAttribute_heap :: "heap \<Rightarrow> jsvalue \<Rightarrow> string \<Rightarrow> jsvalue \<Rightarrow> bool option" where
  "hasUserAttribute_heap h userAttributes attributeName v =
     do { u \<leftarrow> get_prop h userAttributes attributeName; Some (u = v) }"

text \<open>\<open>Object.entries(requiredAttributes).every(...)\<close>, which stops at the first failure.\<close>

fun every_attribute :: "heap \<Rightarrow> jsvalue \<Rightarrow> row \<Rightarrow> bool option" where
  "every_attribute h userAttributes [] = Some True"
| "every_attribute h userAttributes ((attributeName, v) # rest) =
     do { ok \<leftarrow> hasUserAttribute_heap h userAttributes attributeName v;
          if ok then every_attribute h userAttributes rest else Some False }"

definition hasUserAttributes_heap :: "heap \<Rightarrow> jsvalue \<Rightarrow> jsvalue \<Rightarrow> bool option" where
  "hasUserAttributes_heap h required userAttributes =
     (if required = JUndefined then Some True
      else do { attrs \<leftarrow> deref h required; every_attribute h userAttributes attrs })"

text \<open>\<open>entries.reduce(f, acc)\<close> for a callback that reads the store and allocates in it.\<close>

fun reduce_heap ::
  "(heap \<Rightarrow> jsvalue \<Rightarrow> string \<times> jsvalue \<Rightarrow> (jsvalue \<times> heap) option)
     \<Rightarrow> heap \<Rightarrow> jsvalue \<Rightarrow> row \<Rightarrow> (jsvalue \<times> heap) option" where
  "reduce_heap f h acc [] = Some (acc, h)"
| "reduce_heap f h acc (x # xs) =
     (case f h acc x of None \<Rightarrow> None | Some (acc', h') \<Rightarrow> reduce_heap f h' acc' xs)"

text \<open>
  The callback of the inner \<open>reduce\<close>: \<open>{ ...acc, [dimensionName]: dimension }\<close> is a new
  object that holds the reference to the same dimension; otherwise the accumulator is
  returned as it is.
\<close>

definition dimension_step ::
  "jsvalue \<Rightarrow> heap \<Rightarrow> jsvalue \<Rightarrow> string \<times> jsvalue \<Rightarrow> (jsvalue \<times> heap) option" where
  "dimension_step userAttributes h acc tableDimension =
     (case tableDimension of (dimensionName, dimension) \<Rightarrow>
        do { required \<leftarrow> get_prop h dimension ''requiredAttributes'';
             ok \<leftarrow> hasUserAttributes_heap h required userAttributes;
             if ok
             then do { props \<leftarrow> deref h acc;
                       Some (alloc h (object_set props dimensionName dimension)) }
             else Some (acc, h) })"

text \<open>
  The callback of the outer \<open>reduce\<close>: the inner fold starts from a new empty array;
  \<open>{ ...table, dimensions: ... }\<close> and \<open>{ ...at, [tableName]: ... }\<close> are new objects.
\<close>

definition table_step ::
  "jsvalue \<Rightarrow> heap \<Rightarrow> jsvalue \<Rightarrow> string \<times> jsvalue \<Rightarrow> (jsvalue \<times> heap) option" where
  "table_step userAttributes h at exploreTable =
     (case exploreTable of (tableName, t) \<Rightarrow>
        do { atProps \<leftarrow> deref h at;
             tableProps \<leftarrow> deref h t;
             dims \<leftarrow> get_prop h t ''dimensions'';
             entries \<leftarrow> deref h dims;
             (acc0, h1) \<leftarrow> Some (alloc h []);
             (dims', h2) \<leftarrow> reduce_heap (dimension_step userAttributes) h1 acc0 entries;
             (t', h3) \<leftarrow> Some (alloc h2 (object_set tableProps ''dimensions'' dims'));
             Some (alloc h3 (object_set atProps tableName t')) })"

text \<open>\<open>filterDimensionsFromExplore\<close>: \<open>{ ...explore, tables: ... }\<close> is a new object.\<close>

definition filterDimensionsFromExplore_heap ::
  "heap \<Rightarrow> jsvalue \<Rightarrow> jsvalue \<Rightarrow> (jsvalue \<times> heap) option" where
  "filterDimensionsFromExplore_heap h e userAttributes =
     do { exploreProps \<leftarrow> deref h e;
          tbls \<leftarrow> get_prop h e ''tables'';
          entries \<leftarrow> deref h tbls;
          (at0, h1) \<leftarrow> Some (alloc h []);
          (tables', h2) \<leftarrow> reduce_heap (table_step userAttributes) h1 at0 entries;
          Some (alloc h2 (object_set exploreProps ''tables'' tables')) }"

text \<open>One store extends another when it holds the same objects at the same addresses.\<close>

definition extends :: "heap \<Rightarrow> heap \<Rightarrow> bool" where
  "extends h h' = (length h \<le> length h' \<and> take (length h) h' = h)"

text \<open>
  A store in which the function's arguments have the shape their types promise: the
  explore and the user attributes are objects, \<open>tables\<close> is an object of table
  objects, \<open>dimensions\<close> an object of dimension objects, and \<open>requiredAttributes\<close> is
  undefined or an object.
\<close>

definition is_object :: "heap \<Rightarrow> jsvalue \<Rightarrow> bool" where
  "is_object h v = (deref h v \<noteq> None)"

definition wf_dimension :: "heap \<Rightarrow> jsvalue \<Rightarrow> bool" where
  "wf_dimension h d =
     (case deref h d of
        None \<Rightarrow> False
      | Some props \<Rightarrow>
          row_get props ''requiredAttributes'' = JUndefined
          \<or> is_object h (row_get props ''requiredAttributes''))"

definition wf_table :: "heap \<Rightarrow> jsvalue \<Rightarrow> bool" where
  "wf_table h t =
     (case deref h t of
        None \<Rightarrow> False
      | Some props \<Rightarrow>
          (case deref h (row_get props ''dimensions'') of
             None \<Rightarrow> False
           | Some entries \<Rightarrow> list_all (\<lambda>(dn, d). wf_dimension h d) entries))"

definition wf_explore_heap :: "heap \<Rightarrow> jsvalue \<Rightarrow> jsvalue \<Rightarrow> bool" where
  "wf_explore_heap h e userAttributes =
     (is_object h userAttributes
      \<and> (case deref h e of
           None \<Rightarrow> False
         | Some props \<Rightarrow>
             (case deref h (row_get props ''tables'') of
                None \<Rightarrow> False
              | Some entries \<Rightarrow> list_all (\<lambda>(tn, t). wf_table h t) entries)))"

text \<open>
  A store with the explore of one table at address 10 (the dimensions \<open>status\<close>,
  \<open>email\<close> and \<open>region\<close> at 3, 4 and 5) and the user's attributes at address 0.
\<close>

definition demo_heap :: heap where
  "demo_heap =
     [ [(''dept'', JString ''sales'')],
       [(''is_admin'', JString ''true'')],
       [(''dept'', JString ''sales'')],
       [(''name'', JString ''status'')],
       [(''name'', JString ''email''), (''requiredAttributes'', JRef 1)],
       [(''name'', JString ''region''), (''requiredAttributes'', JRef 2)],
       [(''status'', JRef 3), (''email'', JRef 4), (''region'', JRef 5)],
       [(''count'', JString ''COUNT(*)'')],
       [(''name'', JString ''orders''), (''dimensions'', JRef 6), (''metrics'', JRef 7)],
       [(''orders'', JRef 8)],
       [(''name'', JString ''orders''), (''baseTable'', JString ''orders''),
        (''tables'', JRef 9)] ]"

section \<open>CSV rows\<close>

subsection \<open>Items and the functions of other packages\<close>

text \<open>
  \<open>TableCalculation\<close>, and an entry of the item map: a \<open>Field\<close> or a
  \<open>TableCalculation\<close>.
\<close>

record tableCalculation =
  tc_name :: string
  tc_displayName :: string
  tc_sql :: string

datatype item = Field field | TableCalculation tableCalculation

type_synonym itemMap = "item record_obj"

text \<open>
  The type guard \<open>isField\<close> of the common package, applied to \<open>itemMap[id]\<close>: true for a
  \<open>Field\<close>, false for a table calculation, for an inherited member (it has no
  \<open>fieldType\<close>) and for a missing entry.
\<close>

fun isField :: "item property \<Rightarrow> bool" where
  "isField (Own (Field f)) = True"
| "isField _ = False"

text \<open>\<open>item.type\<close> of an entry that \<open>isField\<close> accepts.\<close>

fun item_type :: "item property \<Rightarrow> string" where
  "item_type (Own (Field f)) = field_type f"
| "item_type _ = []"

text \<open>The members of \<open>DimensionType\<close> that the service compares with.\<close>

definition DimensionType_TIMESTAMP :: string where
  "DimensionType_TIMESTAMP = ''timestamp''"

definition DimensionType_DATE :: string where
  "DimensionType_DATE = ''date''"

text \<open>
  The functions the service imports from moment, csv-stringify and the common package
  are parameters of the model: \<open>moment_of v\<close> is \<open>moment(v)\<close>, and \<open>stringify\<close> encodes
  a list of records as CSV text.
\<close>

datatype error = TypeError string | RejectedError string

record library =
  moment_of :: "jsvalue \<Rightarrow> moment"
  isMomentInput :: "jsvalue \<Rightarrow> bool"
  formatItemValue :: "item property \<Rightarrow> jsvalue \<Rightarrow> jsvalue"
  friendlyName :: "string \<Rightarrow> string"
  getItemLabel :: "item property \<Rightarrow> string"
  getItemLabelWithoutTableName :: "item property \<Rightarrow> string"
  stringify :: "jsvalue list list \<Rightarrow> error + string"

subsection \<open>convertRowToCsv\<close>

definition convertRowToCsv ::
  "library \<Rightarrow> row \<Rightarrow> itemMap \<Rightarrow> bool \<Rightarrow> string list \<Rightarrow> jsvalue list" where
  "convertRowToCsv lib r items onlyRaw sortedFieldIds =
     map (\<lambda>id.
            let data = row_get r id;
                item = object_get items id
            in if data = JNull \<or> data = JUndefined then data
               else
                 let itemIsField = isField item
                 in if itemIsField \<and> item_type item = DimensionType_TIMESTAMP
                    then JString (format_moment timestampFormat (moment_of lib data))
                    else if itemIsField \<and> item_type item = DimensionType_DATE
                    then JString (format_moment dateFormat (moment_of lib data))
                    else if onlyRaw then data
                    else formatItemValue lib item data)
         sortedFieldIds"

text \<open>
  A library for examples: every value is read as the fixed instant, formatting a value
  wraps its text in brackets, and a label is the field's label (\<open>undefined\<close> for
  what is no item).
\<close>

definition demo_library :: library where
  "demo_library =
     \<lparr>moment_of = (\<lambda>v. fixed_timestamp),
      isMomentInput = (\<lambda>v. case v of JString s \<Rightarrow> True | _ \<Rightarrow> False),
      formatItemValue = (\<lambda>i v. case v of JString s \<Rightarrow> JString (''['' @ s @ '']'') | _ \<Rightarrow> v),
      friendlyName = (\<lambda>s. s),
      getItemLabel =
        (\<lambda>i. case i of Own (Field f) \<Rightarrow> field_tableLabel f @ '' '' @ field_label f
                      | Own (TableCalculation c) \<Rightarrow> tc_displayName c
                      | _ \<Rightarrow> ''undefined''),
      getItemLabelWithoutTableName =
        (\<lambda>i. case i of Own (Field f) \<Rightarrow> field_label f
                      | Own (TableCalculation c) \<Rightarrow> tc_displayName c
                      | _ \<Rightarrow> ''undefined''),
      stringify = (\<lambda>records. Inr (concat (map (\<lambda>rec. ''row;'') records)))\<rparr>"

definition created_field :: field where
  "created_field =
     \<lparr>fieldType = DIMENSION, field_type = ''timestamp'', field_name = ''created'',
      field_label = ''Created'', field_table = ''orders'', field_tableLabel = ''Orders''\<rparr>"

definition day_field :: field where
  "day_field =
     \<lparr>fieldType = DIMENSION, field_type = ''date'', field_name = ''day'',
      field_label = ''Day'', field_table = ''orders'', field_tableLabel = ''Orders''\<rparr>"

definition status_field :: field where
  "status_field =
     \<lparr>fieldType = DIMENSION, field_type = ''string'', field_name = ''status'',
      field_label = ''Status'', field_table = ''orders'', field_tableLabel = ''Orders''\<rparr>"

definition demo_items :: itemMap where
  "demo_items =
     [(''orders_created'', Field created_field), (''orders_day'', Field day_field),
      (''orders_status'', Field status_field), (''orders_count'', Field count_metric)]"

definition demo_row :: row where
  "demo_row =
     [(''orders_created'', JString ''2024-01-02T03:04:05Z''),
      (''orders_day'', JString ''2024-01-02''),
      (''orders_status'', JString ''complete''),
      (''orders_count'', JNull)]"

definition demo_ids :: "string list" where
  "demo_ids = [''orders_created'', ''orders_day'', ''orders_status'', ''orders_count'',
               ''orders_missing'']"

section \<open>Writing rows to a file\<close>

text \<open>The fields of \<open>MetricQuery\<close>; filters and sorts are not read by the CSV service.\<close>

record metricQuery =
  mq_dimensions :: "string list"
  mq_metrics :: "string list"
  tableCalculations :: "tableCalculation list"
  additionalMetrics :: jsvalue
  mq_filters :: jsvalue
  mq_sorts :: jsvalue
  mq_limit :: int

text \<open>
  What a CSV file holds: the \<open>columns\<close> given to the stringifier, which prints them as
  the header line, and the records piped into it. The local files are kept by path.
\<close>

record csv_file =
  columns :: "jsvalue list"
  records :: "jsvalue list list"

type_synonym file_system = "csv_file record_obj"

definition selectedFieldIds :: "metricQuery \<Rightarrow> string list" where
  "selectedFieldIds mq = mq_metrics mq @ mq_dimensions mq @ map tc_name (tableCalculations mq)"

text \<open>\<open>Array.prototype.indexOf\<close>: the first index of the element, \<open>-1\<close> when there is none.\<close>

fun indexOf :: "string list \<Rightarrow> string \<Rightarrow> int" where
  "indexOf [] x = - 1"
| "indexOf (y # ys) x =
     (if y = x then 0 else (let i = indexOf ys x in if i < 0 then - 1 else i + 1))"

text \<open>
  \<open>Object.keys(rows[0]).filter(...).sort((a, b) => columnOrder.indexOf(a) -
  columnOrder.indexOf(b))\<close>. The comparator orders by a key and \<open>sort\<close> is stable, which
  is what \<open>sort_key\<close> does.
\<close>

definition sortedFieldIds :: "row \<Rightarrow> metricQuery \<Rightarrow> string list \<Rightarrow> string list" where
  "sortedFieldIds firstRow mq columnOrder =
     sort_key (\<lambda>id. indexOf columnOrder id)
       (filter (\<lambda>id. id \<in> set (selectedFieldIds mq)) (object_keys firstRow))"

text \<open>
  The header of the column of an id. \<open>customLabels[id]\<close> is taken when it is truthy: an
  own label that is not empty, or an inherited member, which is then the header as it
  is. Otherwise \<open>itemMap[id]\<close>, when it is truthy, gives the label, and the id is the
  last resort.
\<close>

definition csvHeader ::
  "library \<Rightarrow> itemMap \<Rightarrow> bool \<Rightarrow> string record_obj \<Rightarrow> string list \<Rightarrow> jsvalue list" where
  "csvHeader lib items showTableNames customLabels ids =
     map (\<lambda>id.
            let itemLabel =
                  (case object_get items id of
                     Missing \<Rightarrow> id
                   | i \<Rightarrow> if showTableNames then getItemLabel lib i
                          else getItemLabelWithoutTableName lib i)
            in case object_get customLabels id of
                 Own l \<Rightarrow> if l \<noteq> [] then JString l else JString itemLabel
               | Inherited n \<Rightarrow> JBuiltin n
               | Missing \<Rightarrow> JString itemLabel)
         ids"

text \<open>
  \<open>CsvService.writeRowsToFile\<close>, with the current time as a parameter. The write stream
  is created (an empty file) before the first row is read; without a first row
  \<open>Object.keys(rows[0])\<close> throws. Otherwise the header and the converted rows go
  through the stringifier into the file and the file id is returned. Failures of the
  disk are not modelled.
\<close>

definition writeRowsToFile ::
  "library \<Rightarrow> moment \<Rightarrow> file_system \<Rightarrow> row list \<Rightarrow> bool \<Rightarrow> metricQuery \<Rightarrow> itemMap \<Rightarrow> bool
     \<Rightarrow> string \<Rightarrow> bool \<Rightarrow> string record_obj \<Rightarrow> string list
     \<Rightarrow> (error + string) \<times> file_system" where
  "writeRowsToFile lib now fs rows onlyRaw mq items showTableNames fileName truncated
       customLabels columnOrder =
     (let fileId = generateFileId fileName truncated now;
          path = ''/tmp/'' @ fileId;
          fs1 = object_set fs path \<lparr>columns = [], records = []\<rparr>
      in case rows of
           [] \<Rightarrow> (Inl (TypeError ''Cannot convert undefined or null to object''), fs1)
         | firstRow # _ \<Rightarrow>
             (let ids = sortedFieldIds firstRow mq columnOrder;
                  header = csvHeader lib items showTableNames customLabels ids;
                  body = map (\<lambda>chunk. convertRowToCsv lib chunk items onlyRaw ids) rows
              in (Inr fileId, object_set fs1 path \<lparr>columns = header, records = body\<rparr>)))"

definition demo_query :: metricQuery where
  "demo_query =
     \<lparr>mq_dimensions = [''orders_status'', ''orders_day''], mq_metrics = [''orders_count''],
      tableCalculations = [\<lparr>tc_name = ''share'', tc_displayName = ''Share'', tc_sql = ''1''\<rparr>],
      additionalMetrics = JUndefined, mq_filters = JNull, mq_sorts = JNull, mq_limit = 500\<rparr>"

definition demo_rows :: "row list" where
  "demo_rows =
     [[(''orders_status'', JString ''complete''), (''orders_internal'', JNumber 7),
       (''orders_count'', JNumber 3), (''share'', JNumber 1), (''orders_day'', JString ''d'')],
      [(''orders_status'', JString ''open''), (''orders_internal'', JNumber 8),
       (''orders_count'', JNull), (''share'', JNumber 2), (''orders_day'', JString ''e'')]]"

definition demo_columnOrder :: "string list" where
  "demo_columnOrder = [''orders_day'', ''orders_count'', ''orders_status'']"

definition demo_labels :: "string record_obj" where
  "demo_labels = [(''orders_count'', ''How many'')]"

text \<open>
  A query with a table calculation whose name is \<open>constructor\<close>, its rows and its item
  map; no custom label is set.
\<close>

definition constructor_calculation :: tableCalculation where
  "constructor_calculation =
     \<lparr>tc_name = ''constructor'', tc_displayName = ''Constructor'', tc_sql = ''1''\<rparr>"

definition constructor_query :: metricQuery where
  "constructor_query =
     \<lparr>mq_dimensions = [''orders_status''], mq_metrics = [],
      tableCalculations = [constructor_calculation],
      additionalMetrics = JUndefined, mq_filters = JNull, mq_sorts = JNull, mq_limit = 500\<rparr>"

definition constructor_rows :: "row list" where
  "constructor_rows =
     [[(''orders_status'', JString ''complete''), (''constructor'', JNumber 5)]]"

definition constructor_items :: itemMap where
  "constructor_items =
     [(''orders_status'', Field status_field),
      (''constructor'', TableCalculation constructor_calculation)]"

section \<open>SQL results to CSV\<close>

text \<open>
  \<open>ApiSqlQueryResults\<close>: the type of each field by name (\<open>fields[name].type\<close>) and the
  rows.
\<close>

record apiSqlQueryResults =
  sql_fields :: "string record_obj"
  sql_rows :: "row list"

text \<open>\<open>array[index]\<close>: \<open>undefined\<close> beyond the end.\<close>

definition array_get :: "jsvalue list \<Rightarrow> nat \<Rightarrow> jsvalue" where
  "array_get xs i = (if i < length xs then xs ! i else JUndefined)"

definition isRowValueTimestamp :: "library \<Rightarrow> jsvalue \<Rightarrow> string \<Rightarrow> bool" where
  "isRowValueTimestamp lib v ftype =
     (isMomentInput lib v \<and> ftype = DimensionType_TIMESTAMP)"

definition isRowValueDate :: "library \<Rightarrow> jsvalue \<Rightarrow> string \<Rightarrow> bool" where
  "isRowValueDate lib v ftype = (isMomentInput lib v \<and> ftype = DimensionType_DATE)"

fun error_message :: "error \<Rightarrow> string" where
  "error_message (TypeError m) = m"
| "error_message (RejectedError m) = m"

text \<open>
  \<open>convertSqlToCsv(results, customLabels = {})\<close>. Without a first row
  \<open>Object.keys(results.rows[0])\<close> throws. A header is \<open>customLabels[id]\<close> when that is
  truthy, else the friendly name. The promise resolves with the text of the
  stringifier, or rejects with a new error that carries its message.
\<close>

definition convertSqlToCsv ::
  "library \<Rightarrow> apiSqlQueryResults \<Rightarrow> string record_obj option \<Rightarrow> error + string" where
  "convertSqlToCsv lib results customLabels =
     (let labels = (case customLabels of None \<Rightarrow> [] | Some l \<Rightarrow> l)
      in case sql_rows results of
           [] \<Rightarrow> Inl (TypeError ''Cannot convert undefined or null to object'')
         | firstRow # _ \<Rightarrow>
             (let header =
                    map (\<lambda>id. case object_get labels id of
                                 Own l \<Rightarrow> if l \<noteq> [] then JString l
                                         else JString (friendlyName lib id)
                               | Inherited n \<Rightarrow> JBuiltin n
                               | Missing \<Rightarrow> JString (friendlyName lib id))
                        (object_keys firstRow);
                  csvBody =
                    map (\<lambda>r.
                           map (\<lambda>(fieldIndex, ftype).
                                  let rowValue = array_get (object_values r) fieldIndex
                                  in if isRowValueTimestamp lib rowValue ftype
                                     then JString (format_moment timestampFormat
                                                     (moment_of lib rowValue))
                                     else if isRowValueDate lib rowValue ftype
                                     then JString (format_moment dateFormat
                                                     (moment_of lib rowValue))
                                     else array_get (object_values r) fieldIndex)
                               (enumerate 0 (object_values (sql_fields results))))
                        (sql_rows results)
              in case stringify lib (header # csvBody) of
                   Inl err \<Rightarrow> Inl (RejectedError (error_message err))
                 | Inr output \<Rightarrow> Inr output))"

text \<open>Where a conversion ran: on the thread of the caller, or in a worker started from a script.\<close>

datatype thread = MainThread | WorkerThread string

record workerData =
  wd_results :: apiSqlQueryResults
  wd_customLabels :: "string record_obj option"

text \<open>
  Modelled from the spec: the worker script
  \<open>dist/services/CsvService/convertSqlToCsv.js\<close> is not among the sources. The
  specification says that the background worker "re-runs the pure
  \<open>convertSqlToCsv\<close>/row-conversion logic": the script applies \<open>convertSqlToCsv\<close> to the
  results and the custom labels of its \<open>workerData\<close>.
\<close>

definition convertSqlToCsv_script :: "library \<Rightarrow> workerData \<Rightarrow> error + string" where
  "convertSqlToCsv_script lib wd = convertSqlToCsv lib (wd_results wd) (wd_customLabels wd)"

text \<open>
  Modelled from the spec: \<open>runWorkerThread\<close> of the utilities is not among the sources.
  It hands the work to the worker and settles with what the worker's script produces;
  the only script of the model is the one above.
\<close>

definition runWorkerThread ::
  "library \<Rightarrow> string \<Rightarrow> workerData \<Rightarrow> thread \<times> (error + string)" where
  "runWorkerThread lib script wd =
     (WorkerThread script,
      if script = ''./dist/services/CsvService/convertSqlToCsv.js''
      then convertSqlToCsv_script lib wd
      else Inl (RejectedError ''Cannot find module''))"

text \<open>
  \<open>CsvService.convertSqlQueryResultsToCsv\<close>: the result, and the thread that computed
  it.
\<close>

definition convertSqlQueryResultsToCsv ::
  "library \<Rightarrow> apiSqlQueryResults \<Rightarrow> string record_obj option \<Rightarrow> thread \<times> (error + string)" where
  "convertSqlQueryResultsToCsv lib results customLabels =
     (if length (sql_rows results) > 500
      then runWorkerThread lib ''./dist/services/CsvService/convertSqlToCsv.js''
             \<lparr>wd_results = results, wd_customLabels = customLabels\<rparr>
      else (MainThread, convertSqlToCsv lib results customLabels))"

definition sql_results :: "nat \<Rightarrow> apiSqlQueryResults" where
  "sql_results n =
     \<lparr>sql_fields = [(''created'', ''timestamp''), (''status'', ''string'')],
      sql_rows = replicate n [(''created'', JString ''2024-01-02T03:04:05Z''),
                              (''status'', JString ''complete'')]\<rparr>"

section \<open>The CSV of a chart\<close>

subsection \<open>Data and collaborators\<close>

record sessionUser =
  userUuid :: string
  organizationUuid :: string

text \<open>\<open>SchedulerCsvOptions\<close>: \<open>limit\<close> is \<open>'table'\<close>, \<open>'all'\<close> or a number.\<close>

datatype csvLimitOption = Limit_table | Limit_all | Limit_custom int

record schedulerCsvOptions =
  formatted :: bool
  limit :: csvLimitOption

text \<open>The result of \<open>getSchedulerCsvLimit\<close>: \<open>undefined\<close>, \<open>null\<close> or a number.\<close>

datatype csvLimit = LimitUndefined | LimitNull | LimitNumber int

definition getSchedulerCsvLimit :: "schedulerCsvOptions option \<Rightarrow> csvLimit" where
  "getSchedulerCsvLimit options =
     (case options of
        None \<Rightarrow> LimitUndefined
      | Some opts \<Rightarrow>
          (case limit opts of
             Limit_table \<Rightarrow> LimitUndefined
           | Limit_all \<Rightarrow> LimitNull
           | Limit_custom n \<Rightarrow> LimitNumber n))"

text \<open>
  The \<open>config\<close> of a chart: that of a table chart, with its optional \<open>showTableNames\<close>,
  or that of another kind of chart. \<open>isTableChartConfig\<close> is the type guard of the
  common package.
\<close>

datatype chartConfig = TableChartConfig "bool option" jsvalue | OtherChartConfig jsvalue

fun isTableChartConfig :: "chartConfig \<Rightarrow> bool" where
  "isTableChartConfig (TableChartConfig s c) = True"
| "isTableChartConfig (OtherChartConfig c) = False"

text \<open>\<open>isTableChartConfig(config) ? config.showTableNames ?? false : true\<close>\<close>

fun showTableNames_of :: "chartConfig \<Rightarrow> bool" where
  "showTableNames_of (TableChartConfig (Some b) c) = b"
| "showTableNames_of (TableChartConfig None c) = False"
| "showTableNames_of (OtherChartConfig c) = True"

record savedChart =
  chart_name :: string
  chart_projectUuid :: string
  chart_tableName :: string
  chart_metricQuery :: metricQuery
  chart_config :: chartConfig
  chart_columnOrder :: "string list"

text \<open>The properties of a \<open>download_results\<close> event, and a tracked event.\<close>

record downloadCsvProperties =
  p_jobId :: string
  p_userId :: string
  p_organizationId :: string
  p_projectId :: string
  p_fileType :: string
  p_values :: string
  p_limit :: jsvalue
  p_storage :: string
  p_context :: string
  p_numColumns :: nat
  p_numRows :: "nat option"

record analyticsEvent =
  event :: string
  event_userId :: string
  event_properties :: downloadCsvProperties

text \<open>
  What the service can change: the local files, the objects in the storage bucket, the
  tracked events, and the deletions of local files scheduled with a delay in
  milliseconds.
\<close>

record world =
  files :: file_system
  s3_objects :: file_system
  tracked :: "analyticsEvent list"
  scheduled_unlinks :: "(string \<times> nat) list"

text \<open>
  The collaborators of the service and the functions of the common package that work
  on charts are parameters: each asynchronous call yields a value or an error.
\<close>

record services =
  savedChartModel_get :: "string \<Rightarrow> error + savedChart"
  getExplore :: "sessionUser \<Rightarrow> string \<Rightarrow> string \<Rightarrow> error + explore"
  runMetricQuery ::
    "sessionUser \<Rightarrow> metricQuery \<Rightarrow> string \<Rightarrow> string \<Rightarrow> csvLimit \<Rightarrow> error + row list"
  s3_isEnabled :: bool
  s3_uploadCsv :: "csv_file \<Rightarrow> string \<Rightarrow> error + string"
  getDashboardFiltersForTile :: "string \<Rightarrow> string list \<Rightarrow> jsvalue \<Rightarrow> jsvalue"
  addDashboardFiltersToMetricQuery :: "metricQuery \<Rightarrow> jsvalue \<Rightarrow> metricQuery"
  getItemMap :: "explore \<Rightarrow> jsvalue \<Rightarrow> tableCalculation list \<Rightarrow> itemMap"
  getCustomLabelsFromTableConfig :: "chartConfig \<Rightarrow> string record_obj"
  parseAnalyticsLimit :: "csvLimitOption option \<Rightarrow> jsvalue"

text \<open>\<open>AttachmentUrl\<close>, as \<open>getCsvForChart\<close> returns it.\<close>

record attachmentUrl =
  path :: string
  filename :: string
  localPath :: string
  truncated :: bool

subsection \<open>getCsvForChart\<close>

text \<open>A string is truthy when it is present and not empty.\<close>

definition truthy_string :: "string option \<Rightarrow> bool" where
  "truthy_string s = (case s of None \<Rightarrow> False | Some t \<Rightarrow> t \<noteq> [])"

definition track :: "world \<Rightarrow> string \<Rightarrow> string \<Rightarrow> downloadCsvProperties \<Rightarrow> world" where
  "track w name uid props =
     w\<lparr>tracked := tracked w @ [\<lparr>event = name, event_userId = uid, event_properties = props\<rparr>]\<rparr>"

text \<open>The analytics properties of a scheduled delivery: present when there is a job id.\<close>

definition analyticProperties ::
  "services \<Rightarrow> sessionUser \<Rightarrow> savedChart \<Rightarrow> schedulerCsvOptions option \<Rightarrow> string option
     \<Rightarrow> downloadCsvProperties option" where
  "analyticProperties srv user chart options jobId =
     (if truthy_string jobId
      then Some \<lparr>p_jobId = the jobId,
                 p_userId = userUuid user,
                 p_organizationId = organizationUuid user,
                 p_projectId = chart_projectUuid chart,
                 p_fileType = ''csv'',
                 p_values = (if (case options of None \<Rightarrow> False | Some opts \<Rightarrow> \<not> formatted opts)
                             then ''raw'' else ''formatted''),
                 p_limit = parseAnalyticsLimit srv (map_option limit options),
                 p_storage = (if s3_isEnabled srv then ''s3'' else ''local''),
                 p_context = ''scheduled delivery chart'',
                 p_numColumns =
                   length (mq_dimensions (chart_metricQuery chart))
                   + length (mq_metrics (chart_metricQuery chart))
                   + length (tableCalculations (chart_metricQuery chart)),
                 p_numRows = None\<rparr>
      else None)"

text \<open>
  The metric query of the chart, with the filters of the dashboard laid over it when
  the chart is a tile of a dashboard.
\<close>

definition metricQueryWithDashboardFilters ::
  "services \<Rightarrow> savedChart \<Rightarrow> explore \<Rightarrow> string option \<Rightarrow> jsvalue option \<Rightarrow> metricQuery" where
  "metricQueryWithDashboardFilters srv chart ex tileUuid dashboardFilters =
     (case (if truthy_string tileUuid then dashboardFilters else None) of
        Some filters \<Rightarrow>
          addDashboardFiltersToMetricQuery srv (chart_metricQuery chart)
            (getDashboardFiltersForTile srv (the tileUuid) (object_keys (tables ex)) filters)
      | None \<Rightarrow> chart_metricQuery chart)"

text \<open>
  \<open>CsvService.getCsvForChart\<close>, with the current time as a parameter. An error of a
  collaborator ends the call, with what was done before.
\<close>

definition getCsvForChart ::
  "lightdashConfig \<Rightarrow> library \<Rightarrow> services \<Rightarrow> moment \<Rightarrow> world \<Rightarrow> sessionUser \<Rightarrow> string
     \<Rightarrow> schedulerCsvOptions option \<Rightarrow> string option \<Rightarrow> string option \<Rightarrow> jsvalue option
     \<Rightarrow> (error + attachmentUrl) \<times> world" where
  "getCsvForChart config lib srv now w user chartUuid options jobId tileUuid dashboardFilters =
     (case savedChartModel_get srv chartUuid of
        Inl err \<Rightarrow> (Inl err, w)
      | Inr chart \<Rightarrow>
          (let exploreId = chart_tableName chart;
               onlyRaw = (case options of None \<Rightarrow> False | Some opts \<Rightarrow> \<not> formatted opts);
               props = analyticProperties srv user chart options jobId;
               w1 = (case props of
                       Some p \<Rightarrow> track w ''download_results.started'' (userUuid user) p
                     | None \<Rightarrow> w)
           in case getExplore srv user (chart_projectUuid chart) exploreId of
                Inl err \<Rightarrow> (Inl err, w1)
              | Inr ex \<Rightarrow>
                  (let mq = metricQueryWithDashboardFilters srv chart ex tileUuid
                              dashboardFilters
                   in case runMetricQuery srv user mq (chart_projectUuid chart) exploreId
                             (getSchedulerCsvLimit options) of
                        Inl err \<Rightarrow> (Inl err, w1)
                      | Inr rows \<Rightarrow>
                          (let numberRows = length rows
                           in if numberRows = 0
                              then (Inr \<lparr>path = ''#no-results'',
                                         filename = chart_name chart @ '' (empty)'',
                                         localPath = [],
                                         truncated = True\<rparr>, w1)
                              else
                                (let items = getItemMap srv ex (additionalMetrics mq)
                                               (tableCalculations mq);
                                     isTruncated = couldBeTruncated config rows
                                 in case writeRowsToFile lib now (files w1) rows onlyRaw mq
                                           items (showTableNames_of (chart_config chart))
                                           (chart_name chart) isTruncated
                                           (getCustomLabelsFromTableConfig srv
                                              (chart_config chart))
                                           (chart_columnOrder chart) of
                                      (Inl err, fs') \<Rightarrow> (Inl err, w1\<lparr>files := fs'\<rparr>)
                                    | (Inr fileId, fs') \<Rightarrow>
                                        (let w2 = w1\<lparr>files := fs'\<rparr>;
                                             w3 = (case props of
                                                     Some p \<Rightarrow>
                                                       track w2 ''download_results.completed''
                                                         (userUuid user)
                                                         (p\<lparr>p_numRows := Some numberRows\<rparr>)
                                                   | None \<Rightarrow> w2)
                                         in if s3_isEnabled srv
                                            then
                                              (case map_of (files w3) (''/tmp/'' @ fileId) of
                                                 None \<Rightarrow> (Inl (RejectedError ''ENOENT''), w3)
                                               | Some csvContent \<Rightarrow>
                                                   (case s3_uploadCsv srv csvContent fileId of
                                                      Inl err \<Rightarrow> (Inl err, w3)
                                                    | Inr s3Url \<Rightarrow>
                                                        (Inr \<lparr>path = s3Url,
                                                               filename = chart_name chart,
                                                               localPath = ''/tmp/'' @ fileId,
                                                               truncated = isTruncated\<rparr>,
                                                         w3\<lparr>s3_objects :=
                                                               object_set (s3_objects w3) fileId
                                                                 csvContent,
                                                             scheduled_unlinks :=
                                                               scheduled_unlinks w3
                                                               @ [(''/tmp/'' @ fileId,
                                                                   60 * 10 * 1000)]\<rparr>)))
                                            else
                                              (Inr \<lparr>path = siteUrl config
                                                            @ ''/api/v1/projects/''
                                                            @ chart_projectUuid chart
                                                            @ ''/csv/'' @ fileId,
                                                     filename = chart_name chart,
                                                     localPath = ''/tmp/'' @ fileId,
                                                     truncated = isTruncated\<rparr>, w3)))))))"

text \<open>
  A chart of the explore of orders, collaborators whose metric query returns the given
  rows, a user and a world in which nothing has happened yet.
\<close>

definition demo_chart :: savedChart where
  "demo_chart =
     \<lparr>chart_name = ''Orders by day'', chart_projectUuid = ''p1'', chart_tableName = ''orders'',
      chart_metricQuery = demo_query, chart_config = TableChartConfig None JNull,
      chart_columnOrder = demo_columnOrder\<rparr>"

definition demo_services :: "row list \<Rightarrow> services" where
  "demo_services result =
     \<lparr>savedChartModel_get = (\<lambda>uuid. if uuid = ''c1'' then Inr demo_chart
                                     else Inl (RejectedError ''not found'')),
      getExplore = (\<lambda>u p e. Inr orders_explore),
      runMetricQuery = (\<lambda>u q p e l. Inr result),
      s3_isEnabled = False,
      s3_uploadCsv = (\<lambda>c f. Inr (''https://bucket/'' @ f)),
      getDashboardFiltersForTile = (\<lambda>t ns f. f),
      addDashboardFiltersToMetricQuery = (\<lambda>q f. q),
      getItemMap = (\<lambda>e a t. demo_items),
      getCustomLabelsFromTableConfig = (\<lambda>c. demo_labels),
      parseAnalyticsLimit = (\<lambda>l. JNull)\<rparr>"

definition demo_user :: sessionUser where
  "demo_user = \<lparr>userUuid = ''u1'', organizationUuid = ''o1''\<rparr>"

definition empty_world :: world where
  "empty_world = \<lparr>files = [], s3_objects = [], tracked = [], scheduled_unlinks = []\<rparr>"

section \<open>Properties of the truncation heuristic\<close>

lemma couldBeTruncated_iff:
  "couldBeTruncated config rows =
     (rows \<noteq> [] \<and> int (length rows) * columnCount rows \<ge> cellsLimit config - columnCount rows)"
  by (cases rows) (simp_all add: couldBeTruncated_def columnCount_def Let_def)

lemma columnCount_replicate:
  "0 < n \<Longrightarrow> columnCount (replicate n r) = int (length (object_keys r))"
  by (cases n) (simp_all add: columnCount_def)

text \<open>
  Claim C1, as stated, fails at its own example: with ten columns and the limit 100000,
  9999 rows give \<open>9999 * 10 = 99990 \<ge> 100000 - 10\<close>, so the export is marked
  truncated.
\<close>

theorem couldBeTruncated_9999_counterexample:
  "cellsLimit default_config = 100000
   \<and> columnCount (replicate 9999 row10) = 10
   \<and> length (replicate 9999 row10) = 9999
   \<and> couldBeTruncated default_config (replicate 9999 row10)"
  by (simp add: couldBeTruncated_iff columnCount_replicate cellsLimit_def default_config_def
      row10_def object_keys_def)

text \<open>
  Claim C1, amended. With a cell limit of 100000, \<open>couldBeTruncated\<close> marks an export
  truncated exactly when \<open>rows.length * columnCount \<ge> cellsLimit - columnCount\<close>.
  With ten columns, 9998 rows are not marked truncated, and 9999 rows and 10000 rows
  both are.
\<close>

theorem couldBeTruncated_boundary:
  assumes "cellsLimit config = 100000"
  shows "(couldBeTruncated config rows \<longleftrightarrow>
            int (length rows) * columnCount rows \<ge> 100000 - columnCount rows)
       \<and> (columnCount rows = 10 \<and> length rows = 9998 \<longrightarrow> \<not> couldBeTruncated config rows)
       \<and> (columnCount rows = 10 \<and> length rows = 9999 \<longrightarrow> couldBeTruncated config rows)
       \<and> (columnCount rows = 10 \<and> length rows = 10000 \<longrightarrow> couldBeTruncated config rows)"
proof -
  have empty: "rows = [] \<Longrightarrow> \<not> (int (length rows) * columnCount rows \<ge> 100000 - columnCount rows)"
    by (simp add: columnCount_def)
  have general: "couldBeTruncated config rows \<longleftrightarrow>
      int (length rows) * columnCount rows \<ge> 100000 - columnCount rows"
    using empty assms by (auto simp: couldBeTruncated_iff)
  have below: "columnCount rows = 10 \<and> length rows = 9998 \<longrightarrow> \<not> couldBeTruncated config rows"
    by (simp add: general)
  have slack: "columnCount rows = 10 \<and> length rows = 9999 \<longrightarrow> couldBeTruncated config rows"
    by (simp add: general)
  have at: "columnCount rows = 10 \<and> length rows = 10000 \<longrightarrow> couldBeTruncated config rows"
    by (simp add: general)
  from general below slack at show ?thesis
    by blast
qed

theorem couldBeTruncated_boundary_witness:
  "cellsLimit default_config = 100000
   \<and> columnCount (replicate 9998 row10) = 10
   \<and> \<not> couldBeTruncated default_config (replicate 9998 row10)
   \<and> columnCount (replicate 9999 row10) = 10
   \<and> couldBeTruncated default_config (replicate 9999 row10)
   \<and> columnCount (replicate 10000 row10) = 10
   \<and> couldBeTruncated default_config (replicate 10000 row10)"
proof -
  have lim: "cellsLimit default_config = 100000"
    by (simp add: cellsLimit_def default_config_def)
  have r10: "int (length (object_keys row10)) = 10"
    by (simp add: row10_def object_keys_def)
  have c0: "columnCount (replicate 9998 row10) = 10"
    by (simp add: columnCount_replicate r10)
  have c1: "columnCount (replicate 9999 row10) = 10"
    by (simp add: columnCount_replicate r10)
  have c2: "columnCount (replicate 10000 row10) = 10"
    by (simp add: columnCount_replicate r10)
  show ?thesis
    using lim c0 c1 c2
      couldBeTruncated_boundary [OF lim, of "replicate 9998 row10"]
      couldBeTruncated_boundary [OF lim, of "replicate 9999 row10"]
      couldBeTruncated_boundary [OF lim, of "replicate 10000 row10"]
    by simp
qed

section \<open>Properties of generateFileId\<close>

lemma underscore_not_alnum: "\<not> alphanumeric CHR ''_''"
  by (simp add: alphanumeric_def code_unit_def)

lemma alnum_not_underscore: "alphanumeric c \<Longrightarrow> c \<noteq> CHR ''_''"
  using underscore_not_alnum by blast

lemma dropWhile_replace:
  "dropWhile (\<lambda>d. d = CHR ''_'') (replace_non_alnum cs)
     = replace_non_alnum (dropWhile (\<lambda>d. \<not> alphanumeric d) cs)"
  by (induction cs) (auto simp: replace_non_alnum_def alnum_not_underscore)

lemma replace_non_alnum_Cons:
  "replace_non_alnum (c # cs)
     = (if alphanumeric c then c else CHR ''_'') # replace_non_alnum cs"
  by (simp add: replace_non_alnum_def)

text \<open>
  The two regular-expression replacements together replace every maximal run of
  non-alphanumeric characters by one underscore.
\<close>

lemma collapse_replace: "collapse_underscores (replace_non_alnum s) = replace_runs s"
proof (induction s rule: replace_runs.induct)
  case 1
  then show ?case by (simp add: replace_non_alnum_def)
next
  case (2 c cs)
  show ?case
  proof (cases "alphanumeric c")
    case True
    with 2 show ?thesis
      by (simp add: replace_non_alnum_Cons alnum_not_underscore)
  next
    case False
    note ih = 2(2)[OF False]
    show ?thesis
    proof (cases cs)
      case Nil
      with False show ?thesis by (simp add: replace_non_alnum_def)
    next
      case (Cons d ds)
      show ?thesis
      proof (cases "alphanumeric d")
        case True
        have "collapse_underscores (replace_non_alnum (c # cs))
                = CHR ''_'' # collapse_underscores (replace_non_alnum cs)"
          using True False Cons by (simp add: replace_non_alnum_Cons alnum_not_underscore)
        also have "collapse_underscores (replace_non_alnum cs) = replace_runs cs"
          using ih True Cons by simp
        finally show ?thesis
          using True False Cons by simp
      next
        case dF: False
        have "collapse_underscores (replace_non_alnum (c # cs))
                = CHR ''_'' # collapse_underscores
                    (dropWhile (\<lambda>d. d = CHR ''_'') (replace_non_alnum cs))"
          using dF False Cons by (simp add: replace_non_alnum_Cons)
        also have "\<dots> = CHR ''_'' # replace_runs (dropWhile (\<lambda>d. \<not> alphanumeric d) cs)"
          using ih by (simp add: dropWhile_replace)
        finally show ?thesis
          using False by simp
      qed
    qed
  qed
qed

lemma sanitizeFileName_runs: "sanitizeFileName fileName = replace_runs (toLowerCase fileName)"
  by (simp add: sanitizeFileName_def collapse_replace)

lemma fileIdFormat_fields:
  "format_moment fileIdFormat (Moment t) =
     zeroFill (year t) 4 @ ''-'' @ zeroFill (int (month t)) 2 @ ''-''
     @ zeroFill (int (date t)) 2 @ ''-'' @ zeroFill (int (hour t)) 2 @ ''-''
     @ zeroFill (int (minute t)) 2 @ ''-'' @ zeroFill (int (second t)) 2 @ ''-''
     @ zeroFill (int (millisecond t * 10)) 4"
  by (simp add: format_moment_def fileIdFormat_def)

lemma zeroFill_int:
  "zeroFill (int n) k = replicate (k - length (digits n)) CHR ''0'' @ digits n"
  by (simp add: zeroFill_def Let_def)

lemma digits_times_ten: "\<exists>s. digits (n * 10) = s @ ''0''"
proof (cases "n = 0")
  case True
  then show ?thesis by (simp add: digits.simps)
next
  case False
  then have "digits (n * 10) = digits n @ ''0''"
    by (subst digits.simps) simp
  then show ?thesis by blast
qed

text \<open>
  Whatever the time, the fraction field of a file identifier ends with the digit 0:
  the identifier never ends with \<open>6.csv\<close>.
\<close>

lemma generateFileId_fraction:
  "\<exists>s. generateFileId fileName isTruncated (Moment t) = s @ ''0.csv''"
proof -
  obtain d where d: "digits (millisecond t * 10) = d @ ''0''"
    using digits_times_ten by blast
  have "zeroFill (int (millisecond t * 10)) 4
          = (replicate (4 - length (d @ ''0'')) CHR ''0'' @ d) @ ''0''"
    unfolding zeroFill_int d by simp
  then obtain z where z: "zeroFill (int (millisecond t * 10)) 4 = z @ ''0''"
    by blast
  define p where "p = ''csv-'' @ (if isTruncated then ''incomplete_results-'' else [])
     @ sanitizeFileName fileName @ ''-''
     @ zeroFill (year t) 4 @ ''-'' @ zeroFill (int (month t)) 2 @ ''-''
     @ zeroFill (int (date t)) 2 @ ''-'' @ zeroFill (int (hour t)) 2 @ ''-''
     @ zeroFill (int (minute t)) 2 @ ''-'' @ zeroFill (int (second t)) 2 @ ''-''"
  have "generateFileId fileName isTruncated (Moment t)
          = p @ zeroFill (int (millisecond t * 10)) 4 @ ''.csv''"
    unfolding generateFileId_def Let_def fileIdFormat_fields p_def
    by (simp del: of_nat_mult)
  also have "\<dots> = (p @ z) @ ''0.csv''"
    unfolding z by simp
  finally show ?thesis by blast
qed

text \<open>
  The name alone already differs: whatever the time (valid or not), the identifier of
  \<open>My Chart!!\<close> starts with \<open>csv-my_chart_-\<close>.
\<close>

lemma generateFileId_example_any_time:
  "generateFileId ''My Chart!!'' False time \<noteq> ''csv-my_chart-2024-01-02-03-04-05-0006.csv''"
proof -
  have "sanitizeFileName ''My Chart!!'' = ''my_chart_''"
    by code_simp
  then show ?thesis
    by (simp add: generateFileId_def Let_def)
qed

text \<open>
  Claim C2, as stated, fails at its example: for the name \<open>My Chart!!\<close> and the instant
  \<open>2024-01-02T03:04:05.0006\<close> the identifier is not the one the claim gives. The run
  \<open>!!\<close> at the end of the name becomes an underscore like any other run, so the
  sanitized name is \<open>my_chart_\<close>; and the fraction field is \<open>0000\<close>.
\<close>

theorem generateFileId_example_counterexample:
  "generateFileId ''My Chart!!'' False fixed_timestamp
     \<noteq> ''csv-my_chart-2024-01-02-03-04-05-0006.csv''"
proof -
  have "generateFileId ''My Chart!!'' False fixed_timestamp
          = ''csv-my_chart_-2024-01-02-03-04-05-0000.csv''"
    by code_simp
  then show ?thesis by simp
qed

text \<open>
  Claim C2, amended. For every file name, truncated flag and valid time,
  \<open>generateFileId\<close> returns \<open>csv-\<close>, then \<open>incomplete_results-\<close> exactly when truncated
  is true, then the sanitized name, \<open>-\<close>, the time as \<open>YYYY-MM-DD-HH-mm-ss-SSSS\<close> and
  \<open>.csv\<close>; the sanitized name is the lower-cased name with every run of
  non-alphanumeric characters replaced by a single underscore, and the field \<open>SSSS\<close>
  is the millisecond count times ten. For \<open>My Chart!!\<close>, not truncated, at
  \<open>2024-01-02T03:04:05\<close> and 0 milliseconds the result is
  \<open>csv-my_chart_-2024-01-02-03-04-05-0000.csv\<close>.
\<close>

theorem generateFileId_format:
  "generateFileId fileName isTruncated (Moment t) =
     ''csv-'' @ (if isTruncated then ''incomplete_results-'' else [])
     @ replace_runs (toLowerCase fileName) @ ''-''
     @ zeroFill (year t) 4 @ ''-'' @ zeroFill (int (month t)) 2 @ ''-''
     @ zeroFill (int (date t)) 2 @ ''-'' @ zeroFill (int (hour t)) 2 @ ''-''
     @ zeroFill (int (minute t)) 2 @ ''-'' @ zeroFill (int (second t)) 2 @ ''-''
     @ zeroFill (int (millisecond t * 10)) 4 @ ''.csv''
   \<and> generateFileId ''My Chart!!'' False fixed_timestamp
       = ''csv-my_chart_-2024-01-02-03-04-05-0000.csv''"
proof
  show "generateFileId fileName isTruncated (Moment t) =
     ''csv-'' @ (if isTruncated then ''incomplete_results-'' else [])
     @ replace_runs (toLowerCase fileName) @ ''-''
     @ zeroFill (year t) 4 @ ''-'' @ zeroFill (int (month t)) 2 @ ''-''
     @ zeroFill (int (date t)) 2 @ ''-'' @ zeroFill (int (hour t)) 2 @ ''-''
     @ zeroFill (int (minute t)) 2 @ ''-'' @ zeroFill (int (second t)) 2 @ ''-''
     @ zeroFill (int (millisecond t * 10)) 4 @ ''.csv''"
    unfolding generateFileId_def Let_def sanitizeFileName_runs fileIdFormat_fields
    by simp
next
  show "generateFileId ''My Chart!!'' False fixed_timestamp
       = ''csv-my_chart_-2024-01-02-03-04-05-0000.csv''"
    by code_simp
qed

theorem generateFileId_format_witness:
  "generateFileId ''Sales: Q1 / Q2 (EU)'' True
     (Moment \<lparr>year = 2023, month = 11, date = 30, hour = 23, minute = 59, second = 7,
              millisecond = 6\<rparr>)
     = ''csv-incomplete_results-sales_q1_q2_eu_-2023-11-30-23-59-07-0060.csv''"
proof -
  have "generateFileId ''Sales: Q1 / Q2 (EU)'' True
     (Moment \<lparr>year = 2023, month = 11, date = 30, hour = 23, minute = 59, second = 7,
              millisecond = 6\<rparr>)
     = ''csv-'' @ (if True then ''incomplete_results-'' else [])
     @ replace_runs (toLowerCase ''Sales: Q1 / Q2 (EU)'') @ ''-''
     @ zeroFill 2023 4 @ ''-'' @ zeroFill (int 11) 2 @ ''-''
     @ zeroFill (int 30) 2 @ ''-'' @ zeroFill (int 23) 2 @ ''-''
     @ zeroFill (int 59) 2 @ ''-'' @ zeroFill (int 7) 2 @ ''-''
     @ zeroFill (int (6 * 10)) 4 @ ''.csv''"
    using generateFileId_format [of "''Sales: Q1 / Q2 (EU)''" True
        "\<lparr>year = 2023, month = 11, date = 30, hour = 23, minute = 59, second = 7,
              millisecond = 6\<rparr>"]
    by simp
  also have "\<dots> = ''csv-incomplete_results-sales_q1_q2_eu_-2023-11-30-23-59-07-0060.csv''"
    by code_simp
  finally show ?thesis .
qed

section \<open>Properties of the access filter\<close>

lemma object_set_fresh: "k \<notin> set (object_keys obj) \<Longrightarrow> object_set obj k v = obj @ [(k, v)]"
  by (simp add: object_set_def)

lemma foldl_filter_entries:
  "distinct (object_keys (acc @ xs)) \<Longrightarrow>
   foldl (\<lambda>acc (k, v). if P v then object_set acc k v else acc) acc xs
     = acc @ filter (\<lambda>(k, v). P v) xs"
proof (induction xs arbitrary: acc)
  case Nil
  then show ?case by simp
next
  case (Cons x xs)
  obtain k v where x: "x = (k, v)" by (cases x)
  show ?case
  proof (cases "P v")
    case True
    have fresh: "k \<notin> set (object_keys acc)"
      using Cons.prems x by (auto simp: object_keys_def)
    have "distinct (object_keys ((acc @ [(k, v)]) @ xs))"
      using Cons.prems x by (simp add: object_keys_def)
    from Cons.IH [OF this] True fresh x show ?thesis
      by (simp add: object_set_fresh)
  next
    case False
    have "distinct (object_keys (acc @ xs))"
      using Cons.prems by (auto simp: object_keys_def)
    from Cons.IH [OF this] False x show ?thesis
      by simp
  qed
qed

lemma foldl_map_entries:
  "distinct (object_keys (acc @ xs)) \<Longrightarrow>
   foldl (\<lambda>acc (k, v). object_set acc k (g v)) acc xs = acc @ map (\<lambda>(k, v). (k, g v)) xs"
proof (induction xs arbitrary: acc)
  case Nil
  then show ?case by simp
next
  case (Cons x xs)
  obtain k v where x: "x = (k, v)" by (cases x)
  have fresh: "k \<notin> set (object_keys acc)"
    using Cons.prems x by (auto simp: object_keys_def)
  have "distinct (object_keys ((acc @ [(k, g v)]) @ xs))"
    using Cons.prems x by (simp add: object_keys_def)
  from Cons.IH [OF this] fresh x show ?case
    by (simp add: object_set_fresh)
qed

text \<open>On a well-formed explore the two folds are a map over the tables of a filter.\<close>

lemma filter_conv:
  assumes "wf_explore e"
  shows "filterDimensionsFromExplore e ua
           = e\<lparr>tables := map (\<lambda>(tn, t). (tn, filterTable ua t)) (tables e)\<rparr>"
proof -
  have inner: "\<And>tn t. (tn, t) \<in> set (tables e) \<Longrightarrow>
      t\<lparr>dimensions := foldl (\<lambda>acc (dimensionName, dimension).
                                  if hasUserAttributes (requiredAttributes dimension) ua
                                  then object_set acc dimensionName dimension
                                  else acc) [] (dimensions t)\<rparr> = filterTable ua t"
  proof -
    fix tn t assume "(tn, t) \<in> set (tables e)"
    then have "distinct (object_keys ([] @ dimensions t))"
      using assms by (auto simp: wf_explore_def list_all_iff)
    from foldl_filter_entries [OF this, of "\<lambda>d. hasUserAttributes (requiredAttributes d) ua"]
    show "t\<lparr>dimensions := foldl (\<lambda>acc (dimensionName, dimension).
                                  if hasUserAttributes (requiredAttributes dimension) ua
                                  then object_set acc dimensionName dimension
                                  else acc) [] (dimensions t)\<rparr> = filterTable ua t"
      by (simp add: filterTable_def visible_def)
  qed
  have "distinct (object_keys ([] @ tables e))"
    using assms by (simp add: wf_explore_def)
  from foldl_map_entries [OF this]
  have "tables (filterDimensionsFromExplore e ua)
          = map (\<lambda>(tn, t). (tn,
              t\<lparr>dimensions := foldl (\<lambda>acc (dimensionName, dimension).
                                  if hasUserAttributes (requiredAttributes dimension) ua
                                  then object_set acc dimensionName dimension
                                  else acc) [] (dimensions t)\<rparr>)) (tables e)"
    by (simp add: filterDimensionsFromExplore_def)
  also have "\<dots> = map (\<lambda>(tn, t). (tn, filterTable ua t)) (tables e)"
    by (rule map_cong) (auto simp: inner)
  finally show ?thesis
    by (simp add: filterDimensionsFromExplore_def)
qed

lemma map_of_filter_values:
  "distinct (map fst xs) \<Longrightarrow>
   map_of (filter (\<lambda>(k, v). P v) xs) k
     = (case map_of xs k of None \<Rightarrow> None | Some v \<Rightarrow> if P v then Some v else None)"
proof (induction xs)
  case Nil
  then show ?case by simp
next
  case (Cons x xs)
  obtain k' v' where x: "x = (k', v')" by (cases x)
  have notin: "map_of xs k' = None"
    using Cons.prems x by (simp add: map_of_eq_None_iff)
  from Cons x notin show ?case
    by (auto split: option.splits)
qed

lemma keys_filtered_tables:
  "object_keys (map (\<lambda>(tn, t). (tn, filterTable ua t)) ts) = object_keys ts"
  by (induction ts) (auto simp: object_keys_def)

lemma wf_filtered:
  assumes "wf_explore e"
  shows "wf_explore (e\<lparr>tables := map (\<lambda>(tn, t). (tn, filterTable ua t)) (tables e)\<rparr>)"
proof -
  have "\<And>t. distinct (object_keys (dimensions t)) \<Longrightarrow>
            distinct (object_keys (dimensions (filterTable ua t)))"
    by (simp add: filterTable_def object_keys_def distinct_map_filter)
  then show ?thesis
    using assms by (auto simp: wf_explore_def keys_filtered_tables list_all_iff)
qed

lemma filterTable_idem: "filterTable ua (filterTable ua t) = filterTable ua t"
  by (simp add: filterTable_def)

lemma visible_iff:
  "visible ua d \<longleftrightarrow>
     (case requiredAttributes d of
        None \<Rightarrow> True
      | Some attrs \<Rightarrow> \<forall>(a, v) \<in> set attrs. row_get ua a = JString v)"
  by (auto simp: visible_def hasUserAttributes_def hasUserAttribute_def list_all_iff
      split: option.splits)

lemma object_get_Own: "object_get obj k = Own v \<longleftrightarrow> map_of obj k = Some v"
  by (simp add: object_get_def split: option.splits)

lemma row_get_own: "map_of r k = Some v \<Longrightarrow> row_get r k = v"
  by (simp add: row_get_def object_get_def)

text \<open>A key the object lacks reads as an inherited member or as \<open>undefined\<close>, never as a string.\<close>

lemma row_get_absent: "a \<notin> set (object_keys ua) \<Longrightarrow> row_get ua a \<noteq> JString v"
proof -
  assume "a \<notin> set (object_keys ua)"
  then have "map_of ua a = None"
    by (simp add: object_keys_def map_of_eq_None_iff)
  then show ?thesis
    by (simp add: row_get_def object_get_def)
qed

lemma wf_orders_explore: "wf_explore orders_explore"
  by (simp add: wf_explore_def orders_explore_def orders_table_def object_keys_def)

text \<open>
  Claim C3. On every explore (whose objects have distinct keys) and for every map of
  user attributes, the filter keeps the tables, leaves every field of a table but its
  dimensions as it is (the metrics in particular), and keeps a dimension if and only
  if it declares no \<open>requiredAttributes\<close> or every entry \<open>(attribute, value)\<close> of them has
  \<open>userAttributes[attribute] === value\<close>. A dimension with a required attribute that the
  user's map lacks is excluded.
\<close>

theorem filter_keeps:
  assumes "wf_explore e"
  shows "object_keys (tables (filterDimensionsFromExplore e ua)) = object_keys (tables e)
    \<and> (\<forall>tn t. map_of (tables e) tn = Some t \<longrightarrow>
          (\<exists>t'. map_of (tables (filterDimensionsFromExplore e ua)) tn = Some t'
             \<and> metrics t' = metrics t
             \<and> t' = t\<lparr>dimensions := dimensions t'\<rparr>
             \<and> (\<forall>dn d. map_of (dimensions t') dn = Some d \<longleftrightarrow>
                   map_of (dimensions t) dn = Some d
                   \<and> (case requiredAttributes d of
                        None \<Rightarrow> True
                      | Some attrs \<Rightarrow> \<forall>(a, v) \<in> set attrs. row_get ua a = JString v))
             \<and> (\<forall>dn d attrs a v.
                   map_of (dimensions t) dn = Some d \<and> requiredAttributes d = Some attrs
                   \<and> (a, v) \<in> set attrs \<and> a \<notin> set (object_keys ua)
                   \<longrightarrow> map_of (dimensions t') dn = None)))"
proof (intro conjI allI impI)
  show "object_keys (tables (filterDimensionsFromExplore e ua)) = object_keys (tables e)"
    by (simp add: filter_conv [OF assms] keys_filtered_tables)
next
  fix tn t
  assume look: "map_of (tables e) tn = Some t"
  then have mem: "(tn, t) \<in> set (tables e)"
    by (rule map_of_SomeD)
  then have dist: "distinct (map fst (dimensions t))"
    using assms by (auto simp: wf_explore_def list_all_iff object_keys_def)
  have found: "map_of (tables (filterDimensionsFromExplore e ua)) tn = Some (filterTable ua t)"
    using look by (simp add: filter_conv [OF assms] map_of_map)
  have dims: "\<And>dn. map_of (dimensions (filterTable ua t)) dn
      = (case map_of (dimensions t) dn of
           None \<Rightarrow> None | Some d \<Rightarrow> if visible ua d then Some d else None)"
    using map_of_filter_values [OF dist] by (simp add: filterTable_def)
  have kept: "\<forall>dn d. map_of (dimensions (filterTable ua t)) dn = Some d \<longleftrightarrow>
                   map_of (dimensions t) dn = Some d
                   \<and> (case requiredAttributes d of
                        None \<Rightarrow> True
                      | Some attrs \<Rightarrow> \<forall>(a, v) \<in> set attrs. row_get ua a = JString v)"
    by (auto simp: dims visible_iff [symmetric] split: option.splits)
  have absent: "\<forall>dn d attrs a v.
                   map_of (dimensions t) dn = Some d \<and> requiredAttributes d = Some attrs
                   \<and> (a, v) \<in> set attrs \<and> a \<notin> set (object_keys ua)
                   \<longrightarrow> map_of (dimensions (filterTable ua t)) dn = None"
  proof (intro allI impI)
    fix dn d attrs a v
    assume h: "map_of (dimensions t) dn = Some d \<and> requiredAttributes d = Some attrs
                   \<and> (a, v) \<in> set attrs \<and> a \<notin> set (object_keys ua)"
    then have "row_get ua a \<noteq> JString v"
      by (simp add: row_get_absent)
    with h have "\<not> visible ua d"
      by (auto simp: visible_iff)
    with h show "map_of (dimensions (filterTable ua t)) dn = None"
      by (simp add: dims)
  qed
  show "\<exists>t'. map_of (tables (filterDimensionsFromExplore e ua)) tn = Some t'
             \<and> metrics t' = metrics t
             \<and> t' = t\<lparr>dimensions := dimensions t'\<rparr>
             \<and> (\<forall>dn d. map_of (dimensions t') dn = Some d \<longleftrightarrow>
                   map_of (dimensions t) dn = Some d
                   \<and> (case requiredAttributes d of
                        None \<Rightarrow> True
                      | Some attrs \<Rightarrow> \<forall>(a, v) \<in> set attrs. row_get ua a = JString v))
             \<and> (\<forall>dn d attrs a v.
                   map_of (dimensions t) dn = Some d \<and> requiredAttributes d = Some attrs
                   \<and> (a, v) \<in> set attrs \<and> a \<notin> set (object_keys ua)
                   \<longrightarrow> map_of (dimensions t') dn = None)"
    using found kept absent
    by (intro exI [of _ "filterTable ua t"]) (simp add: filterTable_def)
qed

theorem filter_keeps_witness:
  "wf_explore orders_explore
   \<and> object_keys (tables (filterDimensionsFromExplore orders_explore sales_user)) = [''orders'']
   \<and> (\<exists>t'. map_of (tables (filterDimensionsFromExplore orders_explore sales_user)) ''orders''
              = Some t'
         \<and> metrics t' = [(''count'', count_metric)]
         \<and> map_of (dimensions t') ''status'' = Some status_dimension
         \<and> map_of (dimensions t') ''region'' = Some region_dimension
         \<and> map_of (dimensions t') ''email'' = None)"
proof -
  note k = filter_keeps [OF wf_orders_explore, of sales_user]
  have look: "map_of (tables orders_explore) ''orders'' = Some orders_table"
    by (simp add: orders_explore_def)
  from k look obtain t' where
    t': "map_of (tables (filterDimensionsFromExplore orders_explore sales_user)) ''orders''
           = Some t'"
    and m: "metrics t' = metrics orders_table"
    and kept: "\<And>dn d. map_of (dimensions t') dn = Some d \<longleftrightarrow>
                   map_of (dimensions orders_table) dn = Some d
                   \<and> (case requiredAttributes d of
                        None \<Rightarrow> True
                      | Some attrs \<Rightarrow> \<forall>(a, v) \<in> set attrs. row_get sales_user a = JString v)"
    and absent: "\<And>dn d attrs a v.
                   map_of (dimensions orders_table) dn = Some d \<and> requiredAttributes d = Some attrs
                   \<and> (a, v) \<in> set attrs \<and> a \<notin> set (object_keys sales_user)
                   \<Longrightarrow> map_of (dimensions t') dn = None"
    by blast
  have keys: "object_keys (tables (filterDimensionsFromExplore orders_explore sales_user))
                = [''orders'']"
    using k by (simp add: orders_explore_def object_keys_def)
  have status: "map_of (dimensions t') ''status'' = Some status_dimension"
    unfolding kept by (simp add: orders_table_def status_dimension_def)
  have region: "map_of (dimensions t') ''region'' = Some region_dimension"
    unfolding kept
    by (simp add: orders_table_def region_dimension_def sales_user_def row_get_def object_get_def)
  have email: "map_of (dimensions t') ''email'' = None"
    by (rule absent [of _ email_dimension "[(''is_admin'', ''true'')]" "''is_admin''" "''true''"])
       (simp add: orders_table_def email_dimension_def sales_user_def object_keys_def)
  from wf_orders_explore keys t' m status region email show ?thesis
    by (simp add: orders_table_def)
qed

text \<open>
  Claim C4. The access filter is idempotent: on every explore (whose objects have
  distinct keys), filtering the filtered explore with the same user attributes gives
  the filtered explore again.
\<close>

theorem filter_idempotent:
  assumes "wf_explore e"
  shows "filterDimensionsFromExplore (filterDimensionsFromExplore e ua) ua
           = filterDimensionsFromExplore e ua"
proof -
  let ?e' = "e\<lparr>tables := map (\<lambda>(tn, t). (tn, filterTable ua t)) (tables e)\<rparr>"
  have first: "filterDimensionsFromExplore e ua = ?e'"
    using assms by (rule filter_conv)
  have "wf_explore ?e'"
    using assms by (rule wf_filtered)
  then have "filterDimensionsFromExplore ?e' ua
               = ?e'\<lparr>tables := map (\<lambda>(tn, t). (tn, filterTable ua t)) (tables ?e')\<rparr>"
    by (rule filter_conv)
  also have "\<dots> = ?e'"
    by (simp add: filterTable_idem case_prod_unfold comp_def)
  finally show ?thesis
    by (simp only: first)
qed

theorem filter_idempotent_witness:
  "wf_explore orders_explore
   \<and> filterDimensionsFromExplore (filterDimensionsFromExplore orders_explore sales_user)
         sales_user
       = filterDimensionsFromExplore orders_explore sales_user
   \<and> filterDimensionsFromExplore orders_explore sales_user \<noteq> orders_explore"
proof -
  have "tables (filterDimensionsFromExplore orders_explore sales_user)
          = map (\<lambda>(tn, t). (tn, filterTable sales_user t)) (tables orders_explore)"
    by (simp add: filter_conv [OF wf_orders_explore])
  also have "\<dots> = [(''orders'', orders_table\<lparr>dimensions :=
                        [(''status'', status_dimension), (''region'', region_dimension)]\<rparr>)]"
    by (simp add: orders_explore_def orders_table_def
          filterTable_def visible_def hasUserAttributes_def hasUserAttribute_def
          email_dimension_def status_dimension_def region_dimension_def sales_user_def
          row_get_def object_get_def)
  finally have "tables (filterDimensionsFromExplore orders_explore sales_user)
                  \<noteq> tables orders_explore"
    by (simp add: orders_explore_def orders_table_def)
  then have changed: "filterDimensionsFromExplore orders_explore sales_user \<noteq> orders_explore"
    by auto
  from wf_orders_explore filter_idempotent [OF wf_orders_explore, of sales_user] changed
  show ?thesis by simp
qed

section \<open>The filter allocates and never writes\<close>

lemma extends_iff: "extends h h' \<longleftrightarrow> (\<exists>ys. h' = h @ ys)"
proof
  assume e: "extends h h'"
  have "h' = take (length h) h' @ drop (length h) h'"
    by simp
  with e have "h' = h @ drop (length h) h'"
    by (simp add: extends_def)
  then show "\<exists>ys. h' = h @ ys" ..
next
  assume "\<exists>ys. h' = h @ ys"
  then show "extends h h'"
    by (auto simp: extends_def)
qed

lemma extends_refl: "extends h h"
  by (simp add: extends_def)

lemma extends_trans: "extends h1 h2 \<Longrightarrow> extends h2 h3 \<Longrightarrow> extends h1 h3"
  by (auto simp: extends_iff)

lemma extends_alloc: "alloc h obj = (r, h') \<Longrightarrow> extends h h'"
  by (auto simp: alloc_def extends_def)

lemma extends_nth: "extends h h' \<Longrightarrow> a < length h \<Longrightarrow> h' ! a = h ! a"
  by (auto simp: extends_iff nth_append)

lemma reduce_heap_extends:
  assumes step: "\<And>h acc x acc' h'. f h acc x = Some (acc', h') \<Longrightarrow> extends h h'"
  shows "reduce_heap f h acc xs = Some (r, h') \<Longrightarrow> extends h h'"
proof (induction xs arbitrary: h acc)
  case Nil
  then show ?case by (simp add: extends_refl)
next
  case (Cons x xs)
  then obtain acc1 h1 where s: "f h acc x = Some (acc1, h1)"
    and r: "reduce_heap f h1 acc1 xs = Some (r, h')"
    by (auto split: option.splits)
  from step [OF s] Cons.IH [OF r] show ?case
    by (rule extends_trans)
qed

lemma dimension_step_extends:
  "dimension_step ua h acc x = Some (acc', h') \<Longrightarrow> extends h h'"
  by (auto simp: dimension_step_def extends_refl split: prod.splits if_splits Option.bind_splits
      dest: extends_alloc)

lemma table_step_extends:
  assumes "table_step ua h at x = Some (at', h')"
  shows "extends h h'"
proof -
  obtain tableName t where x: "x = (tableName, t)" by (cases x)
  from assms x obtain atProps tableProps entries acc0 h1 dims' h2 t' h3 where
    a0: "alloc h [] = (acc0, h1)"
    and r: "reduce_heap (dimension_step ua) h1 acc0 entries = Some (dims', h2)"
    and a1: "alloc h2 (object_set tableProps ''dimensions'' dims') = (t', h3)"
    and a2: "alloc h3 (object_set atProps tableName t') = (at', h')"
    by (auto simp: table_step_def split: Option.bind_splits prod.splits)
  have "extends h h1" using a0 by (rule extends_alloc)
  moreover have "extends h1 h2"
    using r by (rule reduce_heap_extends [rotated]) (rule dimension_step_extends)
  moreover have "extends h2 h3" using a1 by (rule extends_alloc)
  moreover have "extends h3 h'" using a2 by (rule extends_alloc)
  ultimately show ?thesis
    by (blast intro: extends_trans)
qed

lemma deref_extends: "extends h h' \<Longrightarrow> deref h v = Some obj \<Longrightarrow> deref h' v = Some obj"
  by (auto simp: deref_def extends_iff nth_append split: jsvalue.splits if_splits)

lemma is_object_extends: "extends h h' \<Longrightarrow> is_object h v \<Longrightarrow> is_object h' v"
  by (auto simp: is_object_def dest: deref_extends)

lemma wf_dimension_extends:
  assumes "extends h h'" "wf_dimension h d"
  shows "wf_dimension h' d"
proof -
  from assms(2) obtain props where p: "deref h d = Some props"
    and r: "row_get props ''requiredAttributes'' = JUndefined
            \<or> is_object h (row_get props ''requiredAttributes'')"
    by (auto simp: wf_dimension_def split: option.splits)
  have "deref h' d = Some props"
    using assms(1) p by (rule deref_extends)
  moreover have "row_get props ''requiredAttributes'' = JUndefined
            \<or> is_object h' (row_get props ''requiredAttributes'')"
    using r is_object_extends [OF assms(1)] by blast
  ultimately show ?thesis
    by (simp add: wf_dimension_def)
qed

lemma is_object_alloc: "alloc h obj = (r, h') \<Longrightarrow> is_object h' r"
  by (auto simp: alloc_def is_object_def deref_def)

lemma every_attribute_total:
  "is_object h ua \<Longrightarrow> \<exists>b. every_attribute h ua attrs = Some b"
  by (induction attrs)
     (auto simp: hasUserAttribute_heap_def get_prop_def is_object_def)

lemma hasUserAttributes_heap_total:
  "is_object h ua \<Longrightarrow> required = JUndefined \<or> is_object h required \<Longrightarrow>
   \<exists>b. hasUserAttributes_heap h required ua = Some b"
  using every_attribute_total [of h ua]
  by (auto simp: hasUserAttributes_heap_def is_object_def)

lemma dimension_step_total:
  assumes "is_object h ua" "wf_dimension h d" "is_object h acc"
  shows "\<exists>acc' h'. dimension_step ua h acc (dn, d) = Some (acc', h') \<and> is_object h' acc'"
proof -
  from assms(2) obtain props where p: "deref h d = Some props"
    and r: "row_get props ''requiredAttributes'' = JUndefined
            \<or> is_object h (row_get props ''requiredAttributes'')"
    by (auto simp: wf_dimension_def split: option.splits)
  from hasUserAttributes_heap_total [OF assms(1) r]
  obtain b where b: "hasUserAttributes_heap h (row_get props ''requiredAttributes'') ua = Some b"
    by blast
  from assms(3) obtain aprops where a: "deref h acc = Some aprops"
    by (auto simp: is_object_def)
  show ?thesis
  proof (cases b)
    case True
    obtain r' h' where al: "alloc h (object_set aprops dn d) = (r', h')"
      by (cases "alloc h (object_set aprops dn d)")
    with True p b a is_object_alloc [OF al] show ?thesis
      by (simp add: dimension_step_def get_prop_def)
  next
    case False
    with p b assms(3) show ?thesis
      by (simp add: dimension_step_def get_prop_def)
  qed
qed

lemma reduce_dimensions_total:
  "is_object h ua \<Longrightarrow> list_all (\<lambda>(dn, d). wf_dimension h d) entries \<Longrightarrow> is_object h acc \<Longrightarrow>
   \<exists>r h'. reduce_heap (dimension_step ua) h acc entries = Some (r, h') \<and> is_object h' r"
proof (induction entries arbitrary: h acc)
  case Nil
  then show ?case by simp
next
  case (Cons x xs)
  obtain dn d where x: "x = (dn, d)" by (cases x)
  from Cons.prems x have wd: "wf_dimension h d"
    and rest: "list_all (\<lambda>(dn, d). wf_dimension h d) xs"
    by auto
  from dimension_step_total [OF Cons.prems(1) wd Cons.prems(3)]
  obtain acc1 h1 where s: "dimension_step ua h acc (dn, d) = Some (acc1, h1)"
    and o1: "is_object h1 acc1"
    by blast
  have ext: "extends h h1"
    using s by (rule dimension_step_extends)
  have "is_object h1 ua"
    using ext Cons.prems(1) by (rule is_object_extends)
  moreover have "list_all (\<lambda>(dn, d). wf_dimension h1 d) xs"
    using rest ext by (auto simp: list_all_iff dest: wf_dimension_extends)
  ultimately obtain r h' where
    "reduce_heap (dimension_step ua) h1 acc1 xs = Some (r, h')" "is_object h' r"
    using Cons.IH o1 by blast
  with s x show ?case by simp
qed

lemma wf_table_extends:
  assumes "extends h h'" "wf_table h t"
  shows "wf_table h' t"
proof -
  from assms(2) obtain props entries where p: "deref h t = Some props"
    and d: "deref h (row_get props ''dimensions'') = Some entries"
    and w: "list_all (\<lambda>(dn, d). wf_dimension h d) entries"
    by (auto simp: wf_table_def split: option.splits)
  have "deref h' t = Some props"
    using assms(1) p by (rule deref_extends)
  moreover have "deref h' (row_get props ''dimensions'') = Some entries"
    using assms(1) d by (rule deref_extends)
  moreover have "list_all (\<lambda>(dn, d). wf_dimension h' d) entries"
    using w assms(1) by (auto simp: list_all_iff dest: wf_dimension_extends)
  ultimately show ?thesis
    by (simp add: wf_table_def)
qed

lemma table_step_total:
  assumes ua: "is_object h ua" and wt: "wf_table h t" and at: "is_object h at"
  shows "\<exists>at' h'. table_step ua h at (tn, t) = Some (at', h') \<and> is_object h' at'"
proof -
  from wt obtain props entries where p: "deref h t = Some props"
    and d: "deref h (row_get props ''dimensions'') = Some entries"
    and w: "list_all (\<lambda>(dn, d). wf_dimension h d) entries"
    by (auto simp: wf_table_def split: option.splits)
  from at obtain atProps where a: "deref h at = Some atProps"
    by (auto simp: is_object_def)
  obtain acc0 h1 where a0: "alloc h [] = (acc0, h1)"
    by (cases "alloc h []")
  have e1: "extends h h1" using a0 by (rule extends_alloc)
  have "is_object h1 ua" using e1 ua by (rule is_object_extends)
  moreover have "list_all (\<lambda>(dn, d). wf_dimension h1 d) entries"
    using w e1 by (auto simp: list_all_iff dest: wf_dimension_extends)
  moreover have "is_object h1 acc0" using a0 by (rule is_object_alloc)
  ultimately obtain dims' h2 where
    r: "reduce_heap (dimension_step ua) h1 acc0 entries = Some (dims', h2)"
    using reduce_dimensions_total by blast
  obtain t' h3 where a1: "alloc h2 (object_set props ''dimensions'' dims') = (t', h3)"
    by (cases "alloc h2 (object_set props ''dimensions'' dims')")
  obtain at' h' where a2: "alloc h3 (object_set atProps tn t') = (at', h')"
    by (cases "alloc h3 (object_set atProps tn t')")
  have "table_step ua h at (tn, t) = Some (at', h')"
    using p d a a0 r a1 a2 by (simp add: table_step_def get_prop_def)
  moreover have "is_object h' at'" using a2 by (rule is_object_alloc)
  ultimately show ?thesis by blast
qed

lemma reduce_tables_total:
  "is_object h ua \<Longrightarrow> list_all (\<lambda>(tn, t). wf_table h t) entries \<Longrightarrow> is_object h at \<Longrightarrow>
   \<exists>r h'. reduce_heap (table_step ua) h at entries = Some (r, h')"
proof (induction entries arbitrary: h at)
  case Nil
  then show ?case by simp
next
  case (Cons x xs)
  obtain tn t where x: "x = (tn, t)" by (cases x)
  from Cons.prems x have wt: "wf_table h t"
    and rest: "list_all (\<lambda>(tn, t). wf_table h t) xs"
    by auto
  from table_step_total [OF Cons.prems(1) wt Cons.prems(3)]
  obtain at1 h1 where s: "table_step ua h at (tn, t) = Some (at1, h1)"
    and o1: "is_object h1 at1"
    by blast
  have ext: "extends h h1"
    using s by (rule table_step_extends)
  have "is_object h1 ua"
    using ext Cons.prems(1) by (rule is_object_extends)
  moreover have "list_all (\<lambda>(tn, t). wf_table h1 t) xs"
    using rest ext by (auto simp: list_all_iff dest: wf_table_extends)
  ultimately obtain r h' where "reduce_heap (table_step ua) h1 at1 xs = Some (r, h')"
    using Cons.IH o1 by blast
  with s x show ?case by simp
qed

lemma filter_heap_total:
  assumes "wf_explore_heap h e ua"
  shows "\<exists>r h'. filterDimensionsFromExplore_heap h e ua = Some (r, h')"
proof -
  from assms obtain props entries where ua: "is_object h ua"
    and p: "deref h e = Some props"
    and t: "deref h (row_get props ''tables'') = Some entries"
    and w: "list_all (\<lambda>(tn, t). wf_table h t) entries"
    by (auto simp: wf_explore_heap_def split: option.splits)
  obtain at0 h1 where a0: "alloc h [] = (at0, h1)"
    by (cases "alloc h []")
  have e1: "extends h h1" using a0 by (rule extends_alloc)
  have "is_object h1 ua" using e1 ua by (rule is_object_extends)
  moreover have "list_all (\<lambda>(tn, t). wf_table h1 t) entries"
    using w e1 by (auto simp: list_all_iff dest: wf_table_extends)
  moreover have "is_object h1 at0" using a0 by (rule is_object_alloc)
  ultimately obtain tables' h2 where
    r: "reduce_heap (table_step ua) h1 at0 entries = Some (tables', h2)"
    using reduce_tables_total by blast
  obtain r' h' where a1: "alloc h2 (object_set props ''tables'' tables') = (r', h')"
    by (cases "alloc h2 (object_set props ''tables'' tables')")
  have "filterDimensionsFromExplore_heap h e ua = Some (r', h')"
    using p t a0 r a1 by (simp add: filterDimensionsFromExplore_heap_def get_prop_def)
  then show ?thesis by blast
qed

lemma extends_length: "extends h h' \<Longrightarrow> length h \<le> length h'"
  by (simp add: extends_def)

lemma alloc_result: "alloc h obj = (r, h') \<Longrightarrow> r = JRef (length h) \<and> h' = h @ [obj]"
  by (auto simp: alloc_def)

lemma deref_alloc: "alloc h obj = (r, h') \<Longrightarrow> deref h' r = Some obj"
  by (auto simp: alloc_def deref_def)

lemma table_step_fresh:
  assumes "table_step ua h at x = Some (at', h')"
  shows "\<exists>a. at' = JRef a \<and> length h \<le> a \<and> a < length h'"
proof -
  obtain tableName t where x: "x = (tableName, t)" by (cases x)
  from assms x obtain atProps tableProps entries acc0 h1 dims' h2 t' h3 where
    a0: "alloc h [] = (acc0, h1)"
    and r: "reduce_heap (dimension_step ua) h1 acc0 entries = Some (dims', h2)"
    and a1: "alloc h2 (object_set tableProps ''dimensions'' dims') = (t', h3)"
    and a2: "alloc h3 (object_set atProps tableName t') = (at', h')"
    by (auto simp: table_step_def split: Option.bind_splits prod.splits)
  have e1: "extends h h1" using a0 by (rule extends_alloc)
  have e2: "extends h1 h2"
    using r by (rule reduce_heap_extends [rotated]) (rule dimension_step_extends)
  have e3: "extends h2 h3" using a1 by (rule extends_alloc)
  have "extends h h3"
    using extends_trans [OF e1 e2] e3 by (rule extends_trans)
  then have "length h \<le> length h3"
    by (rule extends_length)
  with alloc_result [OF a2] show ?thesis by simp
qed

lemma reduce_tables_fresh:
  "reduce_heap (table_step ua) h acc xs = Some (r, h') \<Longrightarrow>
   r = acc \<or> (\<exists>a. r = JRef a \<and> length h \<le> a \<and> a < length h')"
proof (induction xs arbitrary: h acc)
  case Nil
  then show ?case by simp
next
  case (Cons x xs)
  then obtain acc1 h1 where s: "table_step ua h acc x = Some (acc1, h1)"
    and rest: "reduce_heap (table_step ua) h1 acc1 xs = Some (r, h')"
    by (auto split: option.splits)
  from table_step_fresh [OF s] obtain a1 where
    a1: "acc1 = JRef a1" "length h \<le> a1" "a1 < length h1"
    by blast
  have l1: "length h \<le> length h1"
    using table_step_extends [OF s] by (rule extends_length)
  have "extends h1 h'"
    using rest by (rule reduce_heap_extends [rotated]) (rule table_step_extends)
  then have l2: "length h1 \<le> length h'"
    by (rule extends_length)
  from Cons.IH [OF rest] show ?case
  proof
    assume "r = acc1"
    with a1 l2 show ?thesis by auto
  next
    assume "\<exists>a. r = JRef a \<and> length h1 \<le> a \<and> a < length h'"
    with l1 show ?thesis by auto
  qed
qed

text \<open>
  Claim C5. On arguments of the promised shape the filter returns, and whenever it
  returns, the result is a reference to a new object (an address beyond the old
  store, so not the input explore) that has the properties of the input explore with
  \<open>tables\<close> set to a new object; and every object of the old store, the input explore
  with its tables and their dimension maps among them, has the properties it had
  before the call.
\<close>

theorem filter_leaves_input_unchanged:
  "(wf_explore_heap h e ua \<longrightarrow> (\<exists>r h'. filterDimensionsFromExplore_heap h e ua = Some (r, h')))
   \<and> (\<forall>r h'. filterDimensionsFromExplore_heap h e ua = Some (r, h') \<longrightarrow>
          length h \<le> length h'
          \<and> (\<forall>a. a < length h \<longrightarrow> h' ! a = h ! a)
          \<and> (\<exists>a. r = JRef a \<and> length h \<le> a \<and> a < length h')
          \<and> r \<noteq> e
          \<and> (\<exists>props a. deref h e = Some props
                \<and> deref h' r = Some (object_set props ''tables'' (JRef a))
                \<and> length h \<le> a \<and> a < length h'))"
proof (intro conjI allI impI)
  assume "wf_explore_heap h e ua"
  then show "\<exists>r h'. filterDimensionsFromExplore_heap h e ua = Some (r, h')"
    by (rule filter_heap_total)
next
  fix r h'
  assume res: "filterDimensionsFromExplore_heap h e ua = Some (r, h')"
  then obtain exploreProps entries at0 h1 tables' h2 where
    e: "deref h e = Some exploreProps"
    and a0: "alloc h [] = (at0, h1)"
    and red: "reduce_heap (table_step ua) h1 at0 entries = Some (tables', h2)"
    and a1: "alloc h2 (object_set exploreProps ''tables'' tables') = (r, h')"
    by (auto simp: filterDimensionsFromExplore_heap_def split: Option.bind_splits prod.splits)
  have e1: "extends h h1" using a0 by (rule extends_alloc)
  have e2: "extends h1 h2"
    using red by (rule reduce_heap_extends [rotated]) (rule table_step_extends)
  have e3: "extends h2 h'" using a1 by (rule extends_alloc)
  have ext: "extends h h2" using e1 e2 by (rule extends_trans)
  then have ext': "extends h h'" using e3 by (rule extends_trans)
  have r: "r = JRef (length h2)" and len: "length h' = Suc (length h2)"
    using a1 by (auto simp: alloc_def)
  have le: "length h \<le> length h2" using ext by (rule extends_length)
  obtain b where b: "e = JRef b" "b < length h"
    using e by (auto simp: deref_def split: jsvalue.splits if_splits)
  have at0: "at0 = JRef (length h)" and len1: "length h1 = Suc (length h)"
    using a0 by (auto simp: alloc_def)
  have l12: "length h1 \<le> length h2" using e2 by (rule extends_length)
  from reduce_tables_fresh [OF red]
  have "\<exists>a. tables' = JRef a \<and> length h \<le> a \<and> a < length h2"
  proof
    assume "tables' = at0"
    with at0 len1 l12 show ?thesis by auto
  next
    assume "\<exists>a. tables' = JRef a \<and> length h1 \<le> a \<and> a < length h2"
    with len1 show ?thesis by auto
  qed
  then obtain a where a: "tables' = JRef a" "length h \<le> a" "a < length h2"
    by blast
  show "length h \<le> length h'" using le len by simp
  show "\<And>a. a < length h \<Longrightarrow> h' ! a = h ! a"
    using ext' by (rule extends_nth)
  show "\<exists>a. r = JRef a \<and> length h \<le> a \<and> a < length h'"
    using r len le by simp
  show "r \<noteq> e" using r b le by simp
  have "deref h' r = Some (object_set exploreProps ''tables'' (JRef a))"
    using deref_alloc [OF a1] a by simp
  with e a len show "\<exists>props a. deref h e = Some props
                \<and> deref h' r = Some (object_set props ''tables'' (JRef a))
                \<and> length h \<le> a \<and> a < length h'"
    by auto
qed

theorem filter_leaves_input_unchanged_witness:
  "wf_explore_heap demo_heap (JRef 10) (JRef 0)
   \<and> (\<exists>r h'. filterDimensionsFromExplore_heap demo_heap (JRef 10) (JRef 0) = Some (r, h')
         \<and> h' ! 10 = demo_heap ! 10 \<and> h' ! 9 = demo_heap ! 9 \<and> h' ! 8 = demo_heap ! 8
         \<and> h' ! 6 = demo_heap ! 6 \<and> r \<noteq> JRef 10)"
proof -
  have wf: "wf_explore_heap demo_heap (JRef 10) (JRef 0)"
    by code_simp
  have len: "length demo_heap = 11"
    by (simp add: demo_heap_def)
  note frame = filter_leaves_input_unchanged [of demo_heap "JRef 10" "JRef 0"]
  from frame [THEN conjunct1] wf obtain r h' where
    res: "filterDimensionsFromExplore_heap demo_heap (JRef 10) (JRef 0) = Some (r, h')"
    by blast
  from frame [THEN conjunct2, rule_format, OF res]
  have same: "\<And>a. a < length demo_heap \<Longrightarrow> h' ! a = demo_heap ! a"
    and new: "r \<noteq> JRef 10"
    by simp_all
  have "h' ! 10 = demo_heap ! 10" "h' ! 9 = demo_heap ! 9" "h' ! 8 = demo_heap ! 8"
    "h' ! 6 = demo_heap ! 6"
    by (simp_all add: same len)
  with res new have "filterDimensionsFromExplore_heap demo_heap (JRef 10) (JRef 0) = Some (r, h')
         \<and> h' ! 10 = demo_heap ! 10 \<and> h' ! 9 = demo_heap ! 9 \<and> h' ! 8 = demo_heap ! 8
         \<and> h' ! 6 = demo_heap ! 6 \<and> r \<noteq> JRef 10"
    by simp
  then have "\<exists>r h'. filterDimensionsFromExplore_heap demo_heap (JRef 10) (JRef 0) = Some (r, h')
         \<and> h' ! 10 = demo_heap ! 10 \<and> h' ! 9 = demo_heap ! 9 \<and> h' ! 8 = demo_heap ! 8
         \<and> h' ! 6 = demo_heap ! 6 \<and> r \<noteq> JRef 10"
    by (intro exI)
  with wf show ?thesis ..
qed

section \<open>Properties of convertRowToCsv\<close>

lemma convertRowToCsv_length:
  "length (convertRowToCsv lib r items onlyRaw ids) = length ids"
  by (simp add: convertRowToCsv_def)

lemma convertRowToCsv_nth:
  "i < length ids \<Longrightarrow>
   convertRowToCsv lib r items onlyRaw ids ! i = hd (convertRowToCsv lib r items onlyRaw [ids ! i])"
  by (simp add: convertRowToCsv_def)

text \<open>
  The read \<open>row[id]\<close> follows the prototype chain: an id that the row lacks reads
  \<open>undefined\<close>, unless it is the name of a member of \<open>Object.prototype\<close>; then the read
  finds that member, which is neither \<open>null\<close> nor \<open>undefined\<close>, and the raw mode
  returns it.
\<close>

lemma row_get_missing:
  "k \<notin> set (object_keys r) \<Longrightarrow> k \<notin> set object_prototype_keys \<Longrightarrow> row_get r k = JUndefined"
  by (simp add: row_get_def object_get_def object_keys_def map_of_eq_None_iff [THEN iffD2])

lemma row_get_inherited:
  "k \<notin> set (object_keys r) \<Longrightarrow> k \<in> set object_prototype_keys \<Longrightarrow> row_get r k = JBuiltin k"
  by (simp add: row_get_def object_get_def object_keys_def map_of_eq_None_iff [THEN iffD2])

lemma convertRowToCsv_inherited_example:
  "convertRowToCsv demo_library demo_row demo_items True [''constructor'']
     = [JBuiltin ''constructor'']"
  by code_simp

text \<open>
  Claim C8. For every row, item map, list of field ids and both values of \<open>onlyRaw\<close>,
  \<open>convertRowToCsv\<close> returns one cell for each field id, and a cell whose value, as
  the code reads it with \<open>row[id]\<close> (own property, inherited member or nothing), is
  \<open>null\<close> or \<open>undefined\<close> is that value itself.
\<close>

theorem convertRowToCsv_null_passes:
  "length (convertRowToCsv lib r items onlyRaw ids) = length ids
   \<and> (\<forall>i. i < length ids \<and> (row_get r (ids ! i) = JNull \<or> row_get r (ids ! i) = JUndefined)
          \<longrightarrow> convertRowToCsv lib r items onlyRaw ids ! i = row_get r (ids ! i))"
  by (simp add: convertRowToCsv_def Let_def)

theorem convertRowToCsv_null_passes_witness:
  "row_get demo_row (demo_ids ! 3) = JNull
   \<and> convertRowToCsv demo_library demo_row demo_items False demo_ids ! 3 = JNull
   \<and> convertRowToCsv demo_library demo_row demo_items True demo_ids ! 3 = JNull
   \<and> row_get demo_row (demo_ids ! 4) = JUndefined
   \<and> convertRowToCsv demo_library demo_row demo_items False demo_ids ! 4 = JUndefined
   \<and> convertRowToCsv demo_library demo_row demo_items True demo_ids ! 4 = JUndefined"
proof -
  have n: "row_get demo_row (demo_ids ! 3) = JNull"
    by (simp add: demo_row_def demo_ids_def row_get_def object_get_def
        object_prototype_keys_def)
  have u: "row_get demo_row (demo_ids ! 4) = JUndefined"
    by (simp add: demo_row_def demo_ids_def row_get_def object_get_def
        object_prototype_keys_def)
  have len: "length demo_ids = 5"
    by (simp add: demo_ids_def)
  from convertRowToCsv_null_passes [of demo_library demo_row demo_items False demo_ids]
       convertRowToCsv_null_passes [of demo_library demo_row demo_items True demo_ids]
       n u len
  show ?thesis by simp
qed

lemma timestampFormat_fields:
  "format_moment timestampFormat (Moment t) =
     zeroFill (year t) 4 @ ''-'' @ zeroFill (int (month t)) 2 @ ''-''
     @ zeroFill (int (date t)) 2 @ '' '' @ zeroFill (int (hour t)) 2 @ '':''
     @ zeroFill (int (minute t)) 2 @ '':'' @ zeroFill (int (second t)) 2"
  by (simp add: format_moment_def timestampFormat_def)

lemma dateFormat_fields:
  "format_moment dateFormat (Moment t) =
     zeroFill (year t) 4 @ ''-'' @ zeroFill (int (month t)) 2 @ ''-''
     @ zeroFill (int (date t)) 2"
  by (simp add: format_moment_def dateFormat_def)

lemma fixed_timestamp_formats:
  "format_moment timestampFormat fixed_timestamp = ''2024-01-02 03:04:05''"
  "format_moment dateFormat fixed_timestamp = ''2024-01-02''"
  by code_simp+

text \<open>
  Claim C9. A cell that is neither \<open>null\<close> nor \<open>undefined\<close> of a field of type
  \<open>TIMESTAMP\<close> is formatted as \<open>YYYY-MM-DD HH:mm:ss\<close>, and one of a field of type \<open>DATE\<close>
  as \<open>YYYY-MM-DD\<close>, whatever \<open>onlyRaw\<close> is; with \<open>onlyRaw\<close> the raw value is returned
  only for the other cells (items that are no field, and fields of another type).
\<close>

theorem convertRowToCsv_dates_before_raw:
  assumes "i < length ids"
    and "row_get r (ids ! i) \<noteq> JNull" and "row_get r (ids ! i) \<noteq> JUndefined"
  shows "(map_of items (ids ! i) = Some (Field f) \<and> field_type f = DimensionType_TIMESTAMP
            \<longrightarrow> convertRowToCsv lib r items onlyRaw ids ! i
                  = JString (format_moment timestampFormat (moment_of lib (row_get r (ids ! i)))))
       \<and> (map_of items (ids ! i) = Some (Field f) \<and> field_type f = DimensionType_DATE
            \<longrightarrow> convertRowToCsv lib r items onlyRaw ids ! i
                  = JString (format_moment dateFormat (moment_of lib (row_get r (ids ! i)))))
       \<and> (onlyRaw \<and> \<not> (isField (object_get items (ids ! i))
                        \<and> (item_type (object_get items (ids ! i)) = DimensionType_TIMESTAMP
                           \<or> item_type (object_get items (ids ! i)) = DimensionType_DATE))
            \<longrightarrow> convertRowToCsv lib r items onlyRaw ids ! i = row_get r (ids ! i))"
proof (intro conjI impI)
  assume "map_of items (ids ! i) = Some (Field f) \<and> field_type f = DimensionType_TIMESTAMP"
  with assms show "convertRowToCsv lib r items onlyRaw ids ! i
      = JString (format_moment timestampFormat (moment_of lib (row_get r (ids ! i))))"
    by (simp add: convertRowToCsv_def Let_def object_get_def)
next
  assume d: "map_of items (ids ! i) = Some (Field f) \<and> field_type f = DimensionType_DATE"
  have "DimensionType_DATE \<noteq> DimensionType_TIMESTAMP"
    by (simp add: DimensionType_DATE_def DimensionType_TIMESTAMP_def)
  with assms d show "convertRowToCsv lib r items onlyRaw ids ! i
      = JString (format_moment dateFormat (moment_of lib (row_get r (ids ! i))))"
    by (simp add: convertRowToCsv_def Let_def object_get_def)
next
  assume "onlyRaw \<and> \<not> (isField (object_get items (ids ! i))
                        \<and> (item_type (object_get items (ids ! i)) = DimensionType_TIMESTAMP
                           \<or> item_type (object_get items (ids ! i)) = DimensionType_DATE))"
  with assms show "convertRowToCsv lib r items onlyRaw ids ! i = row_get r (ids ! i)"
    by (auto simp: convertRowToCsv_def Let_def)
qed

theorem convertRowToCsv_dates_before_raw_witness:
  "convertRowToCsv demo_library demo_row demo_items True demo_ids ! 0
     = JString ''2024-01-02 03:04:05''
   \<and> convertRowToCsv demo_library demo_row demo_items True demo_ids ! 1
     = JString ''2024-01-02''
   \<and> convertRowToCsv demo_library demo_row demo_items True demo_ids ! 2
     = JString ''complete''"
proof -
  have len: "0 < length demo_ids" "1 < length demo_ids" "2 < length demo_ids"
    by (simp_all add: demo_ids_def)
  have d0: "row_get demo_row (demo_ids ! 0) = JString ''2024-01-02T03:04:05Z''"
    and d1: "row_get demo_row (demo_ids ! 1) = JString ''2024-01-02''"
    and d2: "row_get demo_row (demo_ids ! 2) = JString ''complete''"
    by (simp_all add: demo_row_def demo_ids_def row_get_def object_get_def)
  have i0: "map_of demo_items (demo_ids ! 0) = Some (Field created_field)"
    and i1: "map_of demo_items (demo_ids ! 1) = Some (Field day_field)"
    and i2: "map_of demo_items (demo_ids ! 2) = Some (Field status_field)"
    by (simp_all add: demo_items_def demo_ids_def)
  have t0: "field_type created_field = DimensionType_TIMESTAMP"
    and t1: "field_type day_field = DimensionType_DATE"
    and t2: "field_type status_field \<noteq> DimensionType_TIMESTAMP"
            "field_type status_field \<noteq> DimensionType_DATE"
    by (simp_all add: created_field_def day_field_def status_field_def
        DimensionType_TIMESTAMP_def DimensionType_DATE_def)
  have m: "\<And>v. moment_of demo_library v = fixed_timestamp"
    by (simp add: demo_library_def)
  have "convertRowToCsv demo_library demo_row demo_items True demo_ids ! 0
          = JString ''2024-01-02 03:04:05''"
    using convertRowToCsv_dates_before_raw [of 0 demo_ids demo_row demo_items created_field
        demo_library True] len d0 i0 t0
    by (simp add: m fixed_timestamp_formats)
  moreover have "convertRowToCsv demo_library demo_row demo_items True demo_ids ! 1
          = JString ''2024-01-02''"
    using convertRowToCsv_dates_before_raw [of 1 demo_ids demo_row demo_items day_field
        demo_library True] len d1 i1 t1
    by (simp add: m fixed_timestamp_formats)
  moreover have "convertRowToCsv demo_library demo_row demo_items True demo_ids ! 2
          = JString ''complete''"
    using convertRowToCsv_dates_before_raw [of 2 demo_ids demo_row demo_items status_field
        demo_library True] len d2 i2 t2
    by (simp add: object_get_def)
  ultimately show ?thesis by blast
qed

section \<open>Properties of writeRowsToFile\<close>

lemma map_of_replace:
  "map_of (map (\<lambda>(k', v'). if k' = k then (k', v) else (k', v')) obj) x
     = (if x = k \<and> k \<in> set (object_keys obj) then Some v else map_of obj x)"
proof (induction obj)
  case Nil
  then show ?case by (simp add: object_keys_def)
next
  case (Cons p obj)
  obtain a b where p: "p = (a, b)" by (cases p)
  show ?case
  proof (cases "a = k")
    case True
    with p Cons show ?thesis by (simp add: object_keys_def)
  next
    case False
    with p Cons show ?thesis by (cases "x = k") (simp_all add: object_keys_def)
  qed
qed

lemma map_of_object_set:
  "map_of (object_set obj k v) x = (if x = k then Some v else map_of obj x)"
proof (cases "k \<in> set (object_keys obj)")
  case True
  then show ?thesis
    by (simp add: object_set_def map_of_replace)
next
  case False
  then have "map_of obj k = None"
    by (simp add: object_keys_def map_of_eq_None_iff)
  with False show ?thesis
    by (simp add: object_set_def map_add_def split: option.splits)
qed

lemma set_sortedFieldIds:
  "set (sortedFieldIds firstRow mq columnOrder)
     = set (object_keys firstRow)
       \<inter> (set (mq_metrics mq) \<union> set (mq_dimensions mq) \<union> tc_name ` set (tableCalculations mq))"
  by (auto simp: sortedFieldIds_def selectedFieldIds_def)

lemma sorted_sortedFieldIds:
  "sorted (map (indexOf columnOrder) (sortedFieldIds firstRow mq columnOrder))"
  by (simp add: sortedFieldIds_def)

lemma distinct_sortedFieldIds:
  "distinct (object_keys firstRow) \<Longrightarrow> distinct (sortedFieldIds firstRow mq columnOrder)"
  by (simp add: sortedFieldIds_def)

lemma indexOf_bounds: "- 1 \<le> indexOf ys x \<and> indexOf ys x < int (length ys)"
  by (induction ys) (auto simp: Let_def)

lemma indexOf_absent: "indexOf ys x = - 1 \<longleftrightarrow> x \<notin> set ys"
proof (induction ys)
  case Nil
  then show ?case by simp
next
  case (Cons y ys)
  have "- 1 \<le> indexOf ys x" using indexOf_bounds by blast
  with Cons show ?case
    by (auto simp: Let_def)
qed

lemma indexOf_nth: "x \<in> set ys \<Longrightarrow> ys ! nat (indexOf ys x) = x"
proof (induction ys)
  case Nil
  then show ?case by simp
next
  case (Cons y ys)
  show ?case
  proof (cases "y = x")
    case True
    then show ?thesis by simp
  next
    case False
    with Cons.prems have mem: "x \<in> set ys" by simp
    then have "indexOf ys x \<noteq> - 1" by (simp add: indexOf_absent)
    moreover have "- 1 \<le> indexOf ys x" using indexOf_bounds by blast
    ultimately have nn: "0 \<le> indexOf ys x" by linarith
    then have "nat (indexOf ys x + 1) = Suc (nat (indexOf ys x))" by simp
    with False nn Cons.IH [OF mem] show ?thesis
      by (simp add: Let_def)
  qed
qed

lemma csvHeader_nth:
  "i < length ids \<Longrightarrow>
   csvHeader lib items showTableNames customLabels ids ! i
     = hd (csvHeader lib items showTableNames customLabels [ids ! i])"
  by (simp add: csvHeader_def)

text \<open>
  What \<open>writeRowsToFile\<close> does for every non-empty row set. The columns of the file are
  the field ids of the first row that are among the metrics, the dimensions and the
  table-calculation names of the metric query, sorted by their index in \<open>columnOrder\<close>
  (an id that \<open>columnOrder\<close> lacks has index \<open>-1\<close> and comes first), and every record
  has one cell for each of these ids. The header of a column is what \<open>customLabels[id]\<close>
  reads when that is truthy (an own label that is not empty, or an inherited member),
  else the label of \<open>itemMap[id]\<close> when that is truthy, else the id.
\<close>

lemma writeRowsToFile_columns_general:
  assumes "rows \<noteq> []"
  shows "\<exists>out ids fs'.
      writeRowsToFile lib now fs rows onlyRaw mq items showTableNames fileName isTruncated
          customLabels columnOrder
        = (Inr (generateFileId fileName isTruncated now), fs')
      \<and> map_of fs' (''/tmp/'' @ generateFileId fileName isTruncated now) = Some out
      \<and> ids = sortedFieldIds (hd rows) mq columnOrder
      \<and> set ids = set (object_keys (hd rows))
            \<inter> (set (mq_metrics mq) \<union> set (mq_dimensions mq)
               \<union> tc_name ` set (tableCalculations mq))
      \<and> (distinct (object_keys (hd rows)) \<longrightarrow> distinct ids)
      \<and> sorted (map (indexOf columnOrder) ids)
      \<and> length (columns out) = length ids
      \<and> records out = map (\<lambda>r. convertRowToCsv lib r items onlyRaw ids) rows
      \<and> (\<forall>i. i < length ids \<longrightarrow>
            (\<forall>l. object_get customLabels (ids ! i) = Own l \<and> l \<noteq> []
                 \<longrightarrow> columns out ! i = JString l)
          \<and> (\<forall>n. object_get customLabels (ids ! i) = Inherited n
                 \<longrightarrow> columns out ! i = JBuiltin n)
          \<and> ((object_get customLabels (ids ! i) = Missing
                 \<or> object_get customLabels (ids ! i) = Own [])
                \<and> object_get items (ids ! i) \<noteq> Missing
                 \<longrightarrow> columns out ! i
                      = JString (if showTableNames
                                 then getItemLabel lib (object_get items (ids ! i))
                                 else getItemLabelWithoutTableName lib
                                        (object_get items (ids ! i))))
          \<and> ((object_get customLabels (ids ! i) = Missing
                 \<or> object_get customLabels (ids ! i) = Own [])
                \<and> object_get items (ids ! i) = Missing
                 \<longrightarrow> columns out ! i = JString (ids ! i)))"
proof -
  from assms obtain firstRow rest where rows: "rows = firstRow # rest"
    by (cases rows) auto
  define ids where "ids = sortedFieldIds (hd rows) mq columnOrder"
  define out where "out = \<lparr>columns = csvHeader lib items showTableNames customLabels ids,
     records = map (\<lambda>r. convertRowToCsv lib r items onlyRaw ids) rows\<rparr>"
  define fs' where "fs' =
     object_set (object_set fs (''/tmp/'' @ generateFileId fileName isTruncated now)
                   \<lparr>columns = [], records = []\<rparr>)
       (''/tmp/'' @ generateFileId fileName isTruncated now) out"
  have run: "writeRowsToFile lib now fs rows onlyRaw mq items showTableNames fileName isTruncated
          customLabels columnOrder
        = (Inr (generateFileId fileName isTruncated now), fs')"
    unfolding writeRowsToFile_def Let_def out_def ids_def fs'_def rows by simp
  have look: "map_of fs' (''/tmp/'' @ generateFileId fileName isTruncated now) = Some out"
    unfolding fs'_def by (simp add: map_of_object_set)
  have cell: "\<And>i. i < length ids \<Longrightarrow>
      columns out ! i = hd (csvHeader lib items showTableNames customLabels [ids ! i])"
    by (simp add: out_def csvHeader_nth)
  have header: "\<forall>i. i < length ids \<longrightarrow>
            (\<forall>l. object_get customLabels (ids ! i) = Own l \<and> l \<noteq> []
                 \<longrightarrow> columns out ! i = JString l)
          \<and> (\<forall>n. object_get customLabels (ids ! i) = Inherited n
                 \<longrightarrow> columns out ! i = JBuiltin n)
          \<and> ((object_get customLabels (ids ! i) = Missing
                 \<or> object_get customLabels (ids ! i) = Own [])
                \<and> object_get items (ids ! i) \<noteq> Missing
                 \<longrightarrow> columns out ! i
                      = JString (if showTableNames
                                 then getItemLabel lib (object_get items (ids ! i))
                                 else getItemLabelWithoutTableName lib
                                        (object_get items (ids ! i))))
          \<and> ((object_get customLabels (ids ! i) = Missing
                 \<or> object_get customLabels (ids ! i) = Own [])
                \<and> object_get items (ids ! i) = Missing
                 \<longrightarrow> columns out ! i = JString (ids ! i))"
  proof (intro allI impI)
    fix i
    assume i: "i < length ids"
    show "(\<forall>l. object_get customLabels (ids ! i) = Own l \<and> l \<noteq> []
                 \<longrightarrow> columns out ! i = JString l)
          \<and> (\<forall>n. object_get customLabels (ids ! i) = Inherited n
                 \<longrightarrow> columns out ! i = JBuiltin n)
          \<and> ((object_get customLabels (ids ! i) = Missing
                 \<or> object_get customLabels (ids ! i) = Own [])
                \<and> object_get items (ids ! i) \<noteq> Missing
                 \<longrightarrow> columns out ! i
                      = JString (if showTableNames
                                 then getItemLabel lib (object_get items (ids ! i))
                                 else getItemLabelWithoutTableName lib
                                        (object_get items (ids ! i))))
          \<and> ((object_get customLabels (ids ! i) = Missing
                 \<or> object_get customLabels (ids ! i) = Own [])
                \<and> object_get items (ids ! i) = Missing
                 \<longrightarrow> columns out ! i = JString (ids ! i))"
      unfolding cell [OF i]
      by (cases "object_get items (ids ! i)")
         (auto simp: csvHeader_def Let_def split: property.splits)
  qed
  have s1: "set ids = set (object_keys (hd rows))
            \<inter> (set (mq_metrics mq) \<union> set (mq_dimensions mq)
               \<union> tc_name ` set (tableCalculations mq))"
    unfolding ids_def by (rule set_sortedFieldIds)
  have s2: "distinct (object_keys (hd rows)) \<longrightarrow> distinct ids"
    unfolding ids_def by (simp add: distinct_sortedFieldIds)
  have s3: "sorted (map (indexOf columnOrder) ids)"
    unfolding ids_def by (rule sorted_sortedFieldIds)
  have s4: "length (columns out) = length ids"
    by (simp add: out_def csvHeader_def)
  have s5: "records out = map (\<lambda>r. convertRowToCsv lib r items onlyRaw ids) rows"
    by (simp add: out_def)
  show ?thesis
    by (rule exI [of _ out], rule exI [of _ ids], rule exI [of _ fs'])
       (intro conjI run look ids_def s1 s2 s3 s4 s5 header)
qed

text \<open>The rows of the orders example, with a custom label for the count.\<close>

lemma writeRowsToFile_example:
  "writeRowsToFile demo_library fixed_timestamp [] demo_rows True demo_query demo_items
       False ''Orders by day'' False demo_labels demo_columnOrder
     = (Inr ''csv-orders_by_day-2024-01-02-03-04-05-0000.csv'',
        [(''/tmp/csv-orders_by_day-2024-01-02-03-04-05-0000.csv'',
          \<lparr>columns = [JString ''share'', JString ''Day'', JString ''How many'',
                      JString ''Status''],
           records =
             [[JNumber 1, JString ''2024-01-02'', JNumber 3, JString ''complete''],
              [JNumber 2, JString ''2024-01-02'', JNull, JString ''open'']]\<rparr>)])"
  by code_simp

text \<open>
  Claim C7. The columns and their order are as the claim says, and so is the header of
  every column whose id is not the name of a member of \<open>Object.prototype\<close> (the lemma
  above). For such a name the code misses the case: with no custom label set,
  \<open>customLabels[id]\<close> reads the inherited member, which is truthy, and the code returns
  it as the header instead of falling back to the label of the item. Here the query
  has a table calculation named \<open>constructor\<close> with the label \<open>Constructor\<close>, the
  custom labels are the default \<open>{}\<close>, and the header of its column is the inherited
  function, not \<open>Constructor\<close>.
\<close>

theorem writeRowsToFile_constructor_header:
  "map_of ([] :: string record_obj) ''constructor'' = None
   \<and> map_of constructor_items ''constructor'' = Some (TableCalculation constructor_calculation)
   \<and> getItemLabelWithoutTableName demo_library
        (Own (TableCalculation constructor_calculation)) = ''Constructor''
   \<and> writeRowsToFile demo_library fixed_timestamp [] constructor_rows True constructor_query
        constructor_items False ''Orders'' False [] []
      = (Inr ''csv-orders-2024-01-02-03-04-05-0000.csv'',
         [(''/tmp/csv-orders-2024-01-02-03-04-05-0000.csv'',
           \<lparr>columns = [JString ''Status'', JBuiltin ''constructor''],
            records = [[JString ''complete'', JNumber 5]]\<rparr>)])"
proof -
  have own: "map_of ([] :: string record_obj) ''constructor'' = None"
    by simp
  have item: "map_of constructor_items ''constructor''
                = Some (TableCalculation constructor_calculation)"
    by (simp add: constructor_items_def)
  have label: "getItemLabelWithoutTableName demo_library
        (Own (TableCalculation constructor_calculation)) = ''Constructor''"
    by (simp add: demo_library_def constructor_calculation_def)
  have run: "writeRowsToFile demo_library fixed_timestamp [] constructor_rows True
        constructor_query constructor_items False ''Orders'' False [] []
      = (Inr ''csv-orders-2024-01-02-03-04-05-0000.csv'',
         [(''/tmp/csv-orders-2024-01-02-03-04-05-0000.csv'',
           \<lparr>columns = [JString ''Status'', JBuiltin ''constructor''],
            records = [[JString ''complete'', JNumber 5]]\<rparr>)])"
    by code_simp
  from own item label run show ?thesis
    by (intro conjI)
qed

section \<open>Properties of convertSqlQueryResultsToCsv\<close>

text \<open>
  Claim C6. \<open>convertSqlQueryResultsToCsv\<close> converts on the caller's thread, by
  \<open>convertSqlToCsv\<close> itself, if and only if there are at most 500 rows; with more than
  500 rows the conversion runs in a worker started from the script
  \<open>convertSqlToCsv.js\<close>; in both cases the outcome is that of \<open>convertSqlToCsv\<close> on the
  same results and custom labels.
\<close>

theorem convertSqlQueryResultsToCsv_routing:
  "(fst (convertSqlQueryResultsToCsv lib results customLabels) = MainThread
      \<longleftrightarrow> length (sql_rows results) \<le> 500)
   \<and> (length (sql_rows results) > 500 \<longrightarrow>
        fst (convertSqlQueryResultsToCsv lib results customLabels)
          = WorkerThread ''./dist/services/CsvService/convertSqlToCsv.js'')
   \<and> snd (convertSqlQueryResultsToCsv lib results customLabels)
       = convertSqlToCsv lib results customLabels"
  by (simp add: convertSqlQueryResultsToCsv_def runWorkerThread_def convertSqlToCsv_script_def)

theorem convertSqlQueryResultsToCsv_routing_witness:
  "length (sql_rows (sql_results 500)) = 500
   \<and> fst (convertSqlQueryResultsToCsv demo_library (sql_results 500) None) = MainThread
   \<and> length (sql_rows (sql_results 501)) = 501
   \<and> fst (convertSqlQueryResultsToCsv demo_library (sql_results 501) None)
       = WorkerThread ''./dist/services/CsvService/convertSqlToCsv.js''
   \<and> snd (convertSqlQueryResultsToCsv demo_library (sql_results 501) None)
       = convertSqlToCsv demo_library (sql_results 501) None"
proof -
  have l0: "length (sql_rows (sql_results 500)) = 500"
    and l1: "length (sql_rows (sql_results 501)) = 501"
    by (simp_all add: sql_results_def)
  from convertSqlQueryResultsToCsv_routing [of demo_library "sql_results 500" None]
       convertSqlQueryResultsToCsv_routing [of demo_library "sql_results 501" None]
       l0 l1
  show ?thesis by simp
qed

section \<open>Properties of getCsvForChart\<close>

text \<open>
  Claim C10. When the chart and its explore are found and the metric query returns no
  row, \<open>getCsvForChart\<close> returns the attachment with path \<open>#no-results\<close>, the file name
  \<open><chart name> (empty)\<close>, an empty local path and \<open>truncated = true\<close>, and it writes
  no file: the local files, the bucket and the scheduled deletions are as before.
  \<open>couldBeTruncated\<close> itself returns false for an empty row set.
\<close>

theorem getCsvForChart_no_results:
  assumes chart: "savedChartModel_get srv chartUuid = Inr chart"
    and ex: "getExplore srv user (chart_projectUuid chart) (chart_tableName chart) = Inr ex"
    and rows: "runMetricQuery srv user
                 (metricQueryWithDashboardFilters srv chart ex tileUuid dashboardFilters)
                 (chart_projectUuid chart) (chart_tableName chart)
                 (getSchedulerCsvLimit options) = Inr []"
  shows "(\<exists>w'. getCsvForChart config lib srv now w user chartUuid options jobId tileUuid
                  dashboardFilters
               = (Inr \<lparr>path = ''#no-results'', filename = chart_name chart @ '' (empty)'',
                       localPath = [], truncated = True\<rparr>, w')
             \<and> files w' = files w \<and> s3_objects w' = s3_objects w
             \<and> scheduled_unlinks w' = scheduled_unlinks w)
         \<and> \<not> couldBeTruncated config []"
proof
  define w1 where "w1 =
     (case analyticProperties srv user chart options jobId of
        Some p \<Rightarrow> track w ''download_results.started'' (userUuid user) p
      | None \<Rightarrow> w)"
  have run: "getCsvForChart config lib srv now w user chartUuid options jobId tileUuid
                  dashboardFilters
               = (Inr \<lparr>path = ''#no-results'', filename = chart_name chart @ '' (empty)'',
                       localPath = [], truncated = True\<rparr>, w1)"
    unfolding getCsvForChart_def w1_def by (simp add: chart ex rows Let_def)
  have same: "files w1 = files w" "s3_objects w1 = s3_objects w"
    "scheduled_unlinks w1 = scheduled_unlinks w"
    by (simp_all add: w1_def track_def split: option.splits)
  show "\<exists>w'. getCsvForChart config lib srv now w user chartUuid options jobId tileUuid
                  dashboardFilters
               = (Inr \<lparr>path = ''#no-results'', filename = chart_name chart @ '' (empty)'',
                       localPath = [], truncated = True\<rparr>, w')
             \<and> files w' = files w \<and> s3_objects w' = s3_objects w
             \<and> scheduled_unlinks w' = scheduled_unlinks w"
    by (rule exI [of _ w1]) (intro conjI run same)
  show "\<not> couldBeTruncated config []"
    by (simp add: couldBeTruncated_def)
qed

theorem getCsvForChart_no_results_witness:
  "savedChartModel_get (demo_services []) ''c1'' = Inr demo_chart
   \<and> (\<exists>w'. getCsvForChart default_config demo_library (demo_services []) fixed_timestamp
               empty_world demo_user ''c1'' None (Some ''job1'') None None
             = (Inr \<lparr>path = ''#no-results'', filename = ''Orders by day (empty)'',
                     localPath = [], truncated = True\<rparr>, w')
           \<and> files w' = [] \<and> s3_objects w' = [] \<and> scheduled_unlinks w' = [])
   \<and> \<not> couldBeTruncated default_config []"
proof -
  have h1: "savedChartModel_get (demo_services []) ''c1'' = Inr demo_chart"
    by (simp add: demo_services_def)
  have h2: "getExplore (demo_services []) demo_user (chart_projectUuid demo_chart)
              (chart_tableName demo_chart) = Inr orders_explore"
    by (simp add: demo_services_def)
  have h3: "runMetricQuery (demo_services []) demo_user
              (metricQueryWithDashboardFilters (demo_services []) demo_chart orders_explore
                 None None)
              (chart_projectUuid demo_chart) (chart_tableName demo_chart)
              (getSchedulerCsvLimit None) = Inr []"
    by (simp add: demo_services_def)
  have name: "chart_name demo_chart @ '' (empty)'' = ''Orders by day (empty)''"
    by (simp add: demo_chart_def)
  have w: "files empty_world = []" "s3_objects empty_world = []"
    "scheduled_unlinks empty_world = []"
    by (simp_all add: empty_world_def)
  from getCsvForChart_no_results [OF h1 h2 h3, of default_config demo_library fixed_timestamp
      empty_world "Some ''job1''"]
  show ?thesis
    unfolding name w using h1 by simp
qed

end
